theory Spec2Isabelle
  imports Complex_Main "HOL-Library.Sublist"
begin

section \<open>Numeric conventions\<close>

text \<open>
  The module \<^verbatim>\<open>QMigrate/util.py\<close> computes with Python floats and numpy arrays of
  floats, that is, in IEEE binary64 with rounding to nearest, ties to even. A finite
  double is the real number it stands for; every arithmetic operation returns the
  rounding \<open>b64\<close> of the exact result, \<open>inf\<close> on overflow, and \<open>nan\<close> where IEEE says so.
  Zero carries no sign: every division by zero in this module has a square or the given
  sampling rate as its denominator, where the sign of zero does not change the outcome.
  Arguments are finite doubles. Where Python raises, the model stops with the exception
  raised.
\<close>

datatype failure = ValueError | OverflowError

text \<open>\<^verbatim>\<open>int(x)\<close> on a float: truncation toward zero.\<close>

definition py_int :: "real \<Rightarrow> int" where
  "py_int x = (if 0 \<le> x then \<lfloor>x\<rfloor> else \<lceil>x\<rceil>)"

text \<open>\<^verbatim>\<open>round(x)\<close> with one argument: nearest integer, a tie goes to the even one.\<close>

definition py_round :: "real \<Rightarrow> int" where
  "py_round x =
     (let f = \<lfloor>x\<rfloor>; d = x - of_int f
      in if d < 1 / 2 then f
         else if 1 / 2 < d then f + 1
         else if even f then f else f + 1)"

text \<open>\<^verbatim>\<open>np.ceil(x)\<close> on a finite value: the ceiling, still a float.\<close>

definition np_ceil :: "real \<Rightarrow> real" where
  "np_ceil x = of_int \<lceil>x\<rceil>"

section \<open>Binary64 arithmetic\<close>

text \<open>
  A nonzero real \<open>x\<close> with \<open>2^e \<le> |x| < 2^(e+1)\<close> lies between doubles that are
  \<open>2^(e-52)\<close> apart, and \<open>2^(-1074)\<close> apart below \<open>2^(-1022)\<close> (the subnormal range).
  \<open>b64 x\<close> is the multiple of that spacing nearest to \<open>x\<close>, a tie going to the even
  multiple.
\<close>

definition expo :: "real \<Rightarrow> int" where
  "expo x = max \<lfloor>log 2 \<bar>x\<bar>\<rfloor> (- 1022)"

definition ulp :: "real \<Rightarrow> real" where
  "ulp x = 2 powi (expo x - 52)"

definition b64 :: "real \<Rightarrow> real" where
  "b64 x = (if x = 0 then 0 else of_int (py_round (x / ulp x)) * ulp x)"

text \<open>
  The values of a double, and the result of an operation whose exact result is \<open>x\<close>:
  a rounding that reaches \<open>2^1024\<close> in magnitude is an infinity.
\<close>

datatype f64 = Finite real | PInf | NInf | NaN

definition rnd :: "real \<Rightarrow> f64" where
  "rnd x = (let y = b64 x in if 2 ^ 1024 \<le> y then PInf else if y \<le> - (2 ^ 1024) then NInf else Finite y)"

fun f_neg :: "f64 \<Rightarrow> f64" where
  "f_neg (Finite x) = Finite (- x)"
| "f_neg PInf = NInf"
| "f_neg NInf = PInf"
| "f_neg NaN = NaN"

fun f_add :: "f64 \<Rightarrow> f64 \<Rightarrow> f64" where
  "f_add (Finite x) (Finite y) = rnd (x + y)"
| "f_add NaN v = NaN"
| "f_add u NaN = NaN"
| "f_add PInf NInf = NaN"
| "f_add NInf PInf = NaN"
| "f_add PInf v = PInf"
| "f_add NInf v = NInf"
| "f_add u PInf = PInf"
| "f_add u NInf = NInf"

definition f_sub :: "f64 \<Rightarrow> f64 \<Rightarrow> f64" where
  "f_sub u v = f_add u (f_neg v)"

fun f_mul :: "f64 \<Rightarrow> f64 \<Rightarrow> f64" where
  "f_mul (Finite x) (Finite y) = rnd (x * y)"
| "f_mul NaN v = NaN"
| "f_mul u NaN = NaN"
| "f_mul (Finite x) PInf = (if x = 0 then NaN else if 0 < x then PInf else NInf)"
| "f_mul (Finite x) NInf = (if x = 0 then NaN else if 0 < x then NInf else PInf)"
| "f_mul PInf (Finite y) = (if y = 0 then NaN else if 0 < y then PInf else NInf)"
| "f_mul NInf (Finite y) = (if y = 0 then NaN else if 0 < y then NInf else PInf)"
| "f_mul PInf PInf = PInf"
| "f_mul NInf NInf = PInf"
| "f_mul PInf NInf = NInf"
| "f_mul NInf PInf = NInf"

fun f_div :: "f64 \<Rightarrow> f64 \<Rightarrow> f64" where
  "f_div (Finite x) (Finite y) =
     (if y = 0 then (if x = 0 then NaN else if 0 < x then PInf else NInf) else rnd (x / y))"
| "f_div NaN v = NaN"
| "f_div u NaN = NaN"
| "f_div (Finite x) v = Finite 0"
| "f_div PInf (Finite y) = (if 0 \<le> y then PInf else NInf)"
| "f_div NInf (Finite y) = (if 0 \<le> y then NInf else PInf)"
| "f_div u v = NaN"

text \<open>
  \<^verbatim>\<open>np.exp\<close>, taken as correctly rounded (numpy's is within a unit in the last place of
  that): \<open>exp(-inf)\<close> is 0, and a finite argument far enough below zero underflows to 0.
\<close>

fun f_exp :: "f64 \<Rightarrow> f64" where
  "f_exp (Finite x) = rnd (exp x)"
| "f_exp PInf = PInf"
| "f_exp NInf = Finite 0"
| "f_exp NaN = NaN"

fun np_ceil_f64 :: "f64 \<Rightarrow> f64" where
  "np_ceil_f64 (Finite x) = Finite (of_int \<lceil>x\<rceil>)"
| "np_ceil_f64 v = v"

section \<open>Sample arithmetic\<close>


text \<open>
  \<^verbatim>\<open>return int(np.ceil(time * sampling_rate) / sampling_rate * 1000) / 1000\<close>

  First the formula read in exact arithmetic, as if no operation rounded. \<open>np.ceil\<close>
  returns a numpy float, so a zero sampling rate does not raise at the division: the
  quotient is \<open>nan\<close> (\<open>0.0 / 0\<close>), and \<open>int(nan)\<close> raises ValueError.
\<close>

definition trim2sample :: "real \<Rightarrow> real \<Rightarrow> failure + real" where
  "trim2sample time sampling_rate =
     (if sampling_rate = 0 then Inl ValueError
      else Inr (of_int (py_int (np_ceil (time * sampling_rate) / sampling_rate * 1000)) / 1000))"

text \<open>
  Then the formula as Python evaluates it: the product, the quotient and the
  multiplication by 1000 are binary64 operations, \<open>int\<close> raises on \<open>nan\<close> (ValueError)
  and on an infinity (OverflowError), and the final division of the integer by 1000 is
  correctly rounded.
\<close>

definition trim2sample_f64 :: "real \<Rightarrow> real \<Rightarrow> failure + real" where
  "trim2sample_f64 time sampling_rate =
     (case f_mul (f_div (np_ceil_f64 (f_mul (Finite time) (Finite sampling_rate)))
                        (Finite sampling_rate)) (Finite 1000) of
        Finite m \<Rightarrow> Inr (b64 (of_int (py_int m) / 1000))
      | NaN \<Rightarrow> Inl ValueError
      | _ \<Rightarrow> Inl OverflowError)"

text \<open>
  The contract as the specification words it: the quotient is rounded to three decimal
  places, that is, to the nearest whole number of milliseconds.
\<close>

definition trim2sample_rounding_spec :: "real \<Rightarrow> real \<Rightarrow> failure + real" where
  "trim2sample_rounding_spec time sampling_rate =
     (case f_div (np_ceil_f64 (f_mul (Finite time) (Finite sampling_rate))) (Finite sampling_rate) of
        Finite q \<Rightarrow> Inr (b64 (of_int (py_round (q * 1000)) / 1000))
      | NaN \<Rightarrow> Inl ValueError
      | _ \<Rightarrow> Inl OverflowError)"

section \<open>Gaussian kernels\<close>

text \<open>
  A one-dimensional numpy array is a list, a three-dimensional one a list of lists of
  lists, indexed \<open>f ! i ! j ! k\<close> in the order of the axes.
\<close>

type_synonym array3 = "f64 list list list"

definition map3d :: "(f64 \<Rightarrow> f64) \<Rightarrow> array3 \<Rightarrow> array3" where
  "map3d g A = map (map (map g)) A"

definition zip3d :: "(f64 \<Rightarrow> f64 \<Rightarrow> f64) \<Rightarrow> array3 \<Rightarrow> array3 \<Rightarrow> array3" where
  "zip3d g A B = map2 (map2 (map2 g)) A B"

definition elements3 :: "array3 \<Rightarrow> f64 list" where
  "elements3 A = concat (concat A)"

text \<open>
  \<^verbatim>\<open>np.linspace(start, stop, num)\<close> with the default \<open>endpoint=True\<close>, as numpy computes
  it: \<open>step = (stop - start) / (num - 1)\<close>, the points \<open>arange(num) * step + start\<close> (or
  \<open>arange(num) / (num - 1) * (stop - start) + start\<close> when the step is zero), the last one
  overwritten with \<open>stop\<close>; a single point is \<open>start\<close>; a negative \<open>num\<close> raises
  ValueError.
\<close>

definition linspace :: "f64 \<Rightarrow> f64 \<Rightarrow> int \<Rightarrow> failure + f64 list" where
  "linspace start stop num =
     (if num < 0 then Inl ValueError
      else let dv = num - 1;
               delta = f_sub stop start;
               arange = map (\<lambda>i. rnd (of_nat i)) [0..<nat num];
               y = (if 0 < dv
                    then let step = f_div delta (Finite (of_int dv))
                         in if step = Finite 0
                            then map (\<lambda>v. f_mul (f_div v (Finite (of_int dv))) delta) arange
                            else map (\<lambda>v. f_mul v step) arange
                    else map (\<lambda>v. f_mul v delta) arange);
               y' = map (\<lambda>v. f_add v start) y
           in Inr (if 1 < num then y'[nat num - 1 := stop] else y'))"

text \<open>\<^verbatim>\<open>np.meshgrid(x, y, z, indexing="ij")\<close>: three arrays of shape \<open>(|x|, |y|, |z|)\<close>.\<close>

definition meshgrid_ij :: "f64 list \<Rightarrow> f64 list \<Rightarrow> f64 list \<Rightarrow> array3 \<times> array3 \<times> array3" where
  "meshgrid_ij x y z =
     (map (\<lambda>xi. map (\<lambda>yj. map (\<lambda>zk. xi) z) y) x,
      map (\<lambda>xi. map (\<lambda>yj. map (\<lambda>zk. yj) z) y) x,
      map (\<lambda>xi. map (\<lambda>yj. map (\<lambda>zk. zk) z) y) x)"

text \<open>
  \<^verbatim>\<open>f = a * np.exp(-1. * ((x - b) ** 2) / (2 * (c ** 2)))\<close> on an array \<open>x\<close>, with the
  squares computed as products. With \<open>c = 0\<close> numpy divides by zero without raising, and
  the entries are \<open>0.0\<close> or \<open>nan\<close>.
\<close>

definition gaussian_1d :: "f64 list \<Rightarrow> real \<Rightarrow> real \<Rightarrow> real \<Rightarrow> f64 list" where
  "gaussian_1d x a b c =
     map (\<lambda>xi. f_mul (Finite a)
                 (f_exp (f_div (f_mul (Finite (- 1)) (f_mul (f_sub xi (Finite b)) (f_sub xi (Finite b))))
                               (f_mul (Finite 2) (f_mul (Finite c) (Finite c)))))) x"

text \<open>
  The \<open>sgm\<close> argument is a scalar or a sequence. \<^verbatim>\<open>np.repeat(sgm, 3)\<close> turns a scalar
  into three copies; \<^verbatim>\<open>sx, sy, sz = sgm\<close> raises ValueError unless there are exactly
  three values.
\<close>

datatype sigma = Scalar real | Seq "real list"

definition sigma_components :: "sigma \<Rightarrow> failure + real \<times> real \<times> real" where
  "sigma_components sgm =
     (case (case sgm of Scalar s \<Rightarrow> replicate 3 s | Seq ss \<Rightarrow> ss) of
        [sx, sy, sz] \<Rightarrow> Inr (sx, sy, sz)
      | _ \<Rightarrow> Inl ValueError)"

text \<open>
  \<^verbatim>\<open>nx2 = (nx - 1) / 2\<close>: the true division of two Python integers, correctly rounded;
  it raises OverflowError when the quotient is too large for a float.
\<close>

definition half_extent :: "int \<Rightarrow> failure + real" where
  "half_extent n = (case rnd ((of_int n - 1) / 2) of Finite h \<Rightarrow> Inr h | _ \<Rightarrow> Inl OverflowError)"

text \<open>\<^verbatim>\<open>2 * sx * sx\<close>, evaluated from the left.\<close>

definition two_sigma_sq :: "real \<Rightarrow> f64" where
  "two_sigma_sq s = f_mul (f_mul (Finite 2) (Finite s)) (Finite s)"

text \<open>
  \<^verbatim>\<open>
  nx2 = (nx - 1) / 2 ... x = np.linspace(-nx2, nx2, nx) ...
  ix, iy, iz = np.meshgrid(x, y, z, indexing="ij")
  if np.isscalar(sgm): sgm = np.repeat(sgm, 3)
  sx, sy, sz = sgm
  f = np.exp(- (ix * ix) / (2 * sx * sx) - (iy * iy) / (2 * sy * sy) - (iz * iz) / (2 * sz * sz))
  \<close>
  The unary minus applies to \<open>ix * ix\<close> before the division.
\<close>

definition gaussian_3d :: "int \<Rightarrow> int \<Rightarrow> int \<Rightarrow> sigma \<Rightarrow> failure + array3" where
  "gaussian_3d nx ny nz sgm =
     (case half_extent nx of Inl e \<Rightarrow> Inl e | Inr nx2 \<Rightarrow>
      case half_extent ny of Inl e \<Rightarrow> Inl e | Inr ny2 \<Rightarrow>
      case half_extent nz of Inl e \<Rightarrow> Inl e | Inr nz2 \<Rightarrow>
      case linspace (Finite (- nx2)) (Finite nx2) nx of Inl e \<Rightarrow> Inl e | Inr x \<Rightarrow>
      case linspace (Finite (- ny2)) (Finite ny2) ny of Inl e \<Rightarrow> Inl e | Inr y \<Rightarrow>
      case linspace (Finite (- nz2)) (Finite nz2) nz of Inl e \<Rightarrow> Inl e | Inr z \<Rightarrow>
      case meshgrid_ij x y z of (ix, iy, iz) \<Rightarrow>
      case sigma_components sgm of Inl e \<Rightarrow> Inl e | Inr (sx, sy, sz) \<Rightarrow>
        Inr (map3d f_exp
              (zip3d f_sub
                (zip3d f_sub
                  (map3d (\<lambda>v. f_div (f_neg v) (two_sigma_sq sx)) (zip3d f_mul ix ix))
                  (map3d (\<lambda>v. f_div v (two_sigma_sq sy)) (zip3d f_mul iy iy)))
                (map3d (\<lambda>v. f_div v (two_sigma_sq sz)) (zip3d f_mul iz iz)))))"


definition voxel :: "failure + array3 \<Rightarrow> nat \<Rightarrow> nat \<Rightarrow> nat \<Rightarrow> f64 option" where
  "voxel r i j k =
     (case r of Inl e \<Rightarrow> None
      | Inr f \<Rightarrow> if i < length f \<and> j < length (f ! i) \<and> k < length (f ! i ! j)
                 then Some (f ! i ! j ! k) else None)"

text \<open>
  The separable form of the kernel as the specification words it: the elementwise outer
  product of three one-dimensional profiles, \<open>gaussian_1d\<close> with amplitude 1 and mean 0
  on the centred, linearly spaced coordinates of each axis, every product a binary64
  multiplication.
\<close>

definition outer3 :: "f64 list \<Rightarrow> f64 list \<Rightarrow> f64 list \<Rightarrow> array3" where
  "outer3 u v w = map (\<lambda>a. map (\<lambda>b. map (\<lambda>c. f_mul (f_mul a b) c) w) v) u"

definition gaussian_3d_separable_spec :: "int \<Rightarrow> int \<Rightarrow> int \<Rightarrow> sigma \<Rightarrow> failure + array3" where
  "gaussian_3d_separable_spec nx ny nz sgm =
     (case half_extent nx of Inl e \<Rightarrow> Inl e | Inr nx2 \<Rightarrow>
      case half_extent ny of Inl e \<Rightarrow> Inl e | Inr ny2 \<Rightarrow>
      case half_extent nz of Inl e \<Rightarrow> Inl e | Inr nz2 \<Rightarrow>
      case linspace (Finite (- nx2)) (Finite nx2) nx of Inl e \<Rightarrow> Inl e | Inr x \<Rightarrow>
      case linspace (Finite (- ny2)) (Finite ny2) ny of Inl e \<Rightarrow> Inl e | Inr y \<Rightarrow>
      case linspace (Finite (- nz2)) (Finite nz2) nz of Inl e \<Rightarrow> Inl e | Inr z \<Rightarrow>
      case sigma_components sgm of Inl e \<Rightarrow> Inl e | Inr (sx, sy, sz) \<Rightarrow>
        Inr (outer3 (gaussian_1d x 1 0 sx) (gaussian_1d y 1 0 sy) (gaussian_1d z 1 0 sz)))"

section \<open>The error taxonomy\<close>

text \<open>
  Each exception class is a constructor; \<open>ChannelNameException\<close> and
  \<open>BadUpfactorException\<close> carry the text that \<^verbatim>\<open>"{}".format(trace)\<close> inserts.
  \<open>class_name\<close> is the name of the class, \<open>primary_message\<close> the string handed to
  \<^verbatim>\<open>super().__init__\<close>, and \<open>msg\<close> the attribute \<^verbatim>\<open>self.msg\<close>, which only two
  classes set.
\<close>

datatype exception =
    StationFileHeaderException
  | VelocityModelFileHeaderException
  | ArchiveEmptyException
  | NoScanMseedDataException
  | NoStationAvailabilityDataException
  | DataGapException
  | ChannelNameException string
  | BadUpfactorException string
  | OnsetTypeError
  | PickerTypeError
  | TimeSpanException
  | InvalidThresholdMethodException

fun class_name :: "exception \<Rightarrow> string" where
  "class_name StationFileHeaderException = ''StationFileHeaderException''"
| "class_name VelocityModelFileHeaderException = ''VelocityModelFileHeaderException''"
| "class_name ArchiveEmptyException = ''ArchiveEmptyException''"
| "class_name NoScanMseedDataException = ''NoScanMseedDataException''"
| "class_name NoStationAvailabilityDataException = ''NoStationAvailabilityDataException''"
| "class_name DataGapException = ''DataGapException''"
| "class_name (ChannelNameException trace) = ''ChannelNameException''"
| "class_name (BadUpfactorException trace) = ''BadUpfactorException''"
| "class_name OnsetTypeError = ''OnsetTypeError''"
| "class_name PickerTypeError = ''PickerTypeError''"
| "class_name TimeSpanException = ''TimeSpanException''"
| "class_name InvalidThresholdMethodException = ''InvalidThresholdMethodException''"

abbreviation tab :: char where
  "tab \<equiv> CHR 0x09"

abbreviation apostrophe :: char where
  "apostrophe \<equiv> CHR 0x27"

fun primary_message :: "exception \<Rightarrow> string" where
  "primary_message StationFileHeaderException =
     ''StationFileHeaderException: incorrect station file header - '' @
     ''use:\<newline>Latitude, Longitude, Elevation, Name''"
| "primary_message VelocityModelFileHeaderException =
     ''VelocityModelFileHeaderException: incorrect velocity model '' @
     ''file header - use:\<newline>Depth, Vp, Vs''"
| "primary_message ArchiveEmptyException =
     ''ArchiveEmptyException: No data was available for this timestep.''"
| "primary_message NoScanMseedDataException =
     ''NoScanMseedDataException: No .scanmseed data found.''"
| "primary_message NoStationAvailabilityDataException =
     ''NoStationAvailabilityDataException: No .StationAvailability '' @
     ''files found.''"
| "primary_message DataGapException =
     ''DataGapException: All available data had gaps for this '' @
     ''timestep.\<newline>    OR: no data present in the archive for the'' @
     ''selected stations.''"
| "primary_message (ChannelNameException trace) =
     ''ChannelNameException: Channel name header does not conform '' @
     ''to\<newline>the IRIS SEED standard - 3 characters; ending in '' @
     [apostrophe] @ ''Z'' @ [apostrophe] @ '' for\<newline>'' @
     ''vertical and ending either '' @ [apostrophe] @ ''E'' @ [apostrophe] @ '' & '' @
     [apostrophe] @ ''N'' @ [apostrophe] @ '' or '' @ [apostrophe] @ ''1'' @ [apostrophe] @
     '' & '' @ [apostrophe] @ ''2'' @ [apostrophe] @ '' for\<newline>'' @
     ''horizontal components.\<newline>    Working on trace: '' @ trace"
| "primary_message (BadUpfactorException trace) =
     ''BadUpfactorException: chosen upfactor cannot be decimated to\<newline>'' @
     ''target sampling rate.\<newline>    Working on trace: '' @ trace"
| "primary_message OnsetTypeError =
     ''OnsetTypeError: The Onset object you have created does not '' @
     ''inherit from the required base class - see manual.''"
| "primary_message PickerTypeError =
     ''PickerTypeError: The PhasePicker object you have created does'' @
     ''not inherit from the required base class - see manual.''"
| "primary_message TimeSpanException =
     ''TimeSpanException: The start time specified is after the end'' @
     '' time.''"
| "primary_message InvalidThresholdMethodException =
     ''InvalidThresholdMethodException: Only '' @ [apostrophe] @ ''static'' @ [apostrophe] @
     '' or '' @ [apostrophe] @ ''dynamic'' @ [apostrophe] @ '' '' @
     ''thresholds are supported.''"

fun msg :: "exception \<Rightarrow> string option" where
  "msg ArchiveEmptyException =
     Some ([tab, tab] @ ''No files found in archive for this time period.'')"
| "msg DataGapException =
     Some ([tab, tab] @ ''All available data for this time period contains gaps'' @
           ''\<newline>'' @ [tab, tab] @ ''or data not available at start/end of time period'')"
| "msg e = None"

text \<open>
  The primary messages as the specification's table of the error message contract
  prints them, for the six conditions whose text the table gives.
\<close>

fun table_primary_message :: "exception \<Rightarrow> string option" where
  "table_primary_message StationFileHeaderException =
     Some ''incorrect station file header - use:\<newline>Latitude, Longitude, Elevation, Name''"
| "table_primary_message VelocityModelFileHeaderException =
     Some ''incorrect velocity model file header - use:\<newline>Depth, Vp, Vs''"
| "table_primary_message ArchiveEmptyException =
     Some ''No data was available for this timestep.''"
| "table_primary_message NoScanMseedDataException =
     Some ''No .scanmseed data found.''"
| "table_primary_message NoStationAvailabilityDataException =
     Some ''No .StationAvailability files found.''"
| "table_primary_message DataGapException =
     Some (''All available data had gaps for this timestep.\<newline> OR: no data present '' @
           ''in the archive for the selected stations.'')"
| "table_primary_message e = None"

section \<open>Auxiliary notions for the proofs\<close>

text \<open>
  Half the smallest subnormal, the bound on a rounding error near zero; the \<open>i\<close>-th
  centred coordinate of an axis with \<open>n\<close> points and the axis as a list of doubles; a
  three-dimensional array tabulated from a function of the three axis values; the value
  the kernel formula takes at one point; and the values that are not below, or not
  above, zero.
\<close>

definition tiny :: real where
  "tiny = 2 powi (- 1075)"

definition coord :: "int \<Rightarrow> nat \<Rightarrow> real" where
  "coord n i = of_nat i - (of_int n - 1) / 2"

definition axis :: "int \<Rightarrow> f64 list" where
  "axis n = map (\<lambda>i. Finite (coord n i)) [0..<nat n]"

definition grid3 :: "(f64 \<Rightarrow> f64 \<Rightarrow> f64 \<Rightarrow> f64) \<Rightarrow> f64 list \<Rightarrow> f64 list \<Rightarrow> f64 list \<Rightarrow> array3" where
  "grid3 F x y z = map (\<lambda>a. map (\<lambda>b. map (\<lambda>c. F a b c) z) y) x"

definition kernel_value :: "real \<Rightarrow> real \<Rightarrow> real \<Rightarrow> f64 \<Rightarrow> f64 \<Rightarrow> f64 \<Rightarrow> f64" where
  "kernel_value sx sy sz a b c =
     f_exp (f_sub (f_sub (f_div (f_neg (f_mul a a)) (two_sigma_sq sx))
                         (f_div (f_mul b b) (two_sigma_sq sy)))
                  (f_div (f_mul c c) (two_sigma_sq sz)))"



text \<open>
  The value of one profile \<open>gaussian_1d x 1 0 c\<close> at one point, and the rounded term
  \<open>x * x / (2 * s * s)\<close> that the kernel and the profile both put in the exponent.
\<close>

definition profile_value :: "real \<Rightarrow> f64 \<Rightarrow> f64" where
  "profile_value c xi =
     f_mul (Finite 1)
       (f_exp (f_div (f_mul (Finite (- 1)) (f_mul (f_sub xi (Finite 0)) (f_sub xi (Finite 0))))
                     (f_mul (Finite 2) (f_mul (Finite c) (Finite c)))))"

definition rounded_term :: "real \<Rightarrow> real \<Rightarrow> real" where
  "rounded_term s x = b64 (b64 (x * x) / (2 * b64 (s * s)))"

section \<open>Facts about the conversions and about exact arithmetic\<close>

lemma py_round_near: "\<bar>of_int (py_round x) - x\<bar> \<le> 1 / 2"
  unfolding py_round_def Let_def by (simp add: abs_le_iff)

lemma py_round_tie: "\<bar>of_int (py_round x) - x\<bar> = 1 / 2 \<Longrightarrow> even (py_round x)"
  unfolding py_round_def Let_def by (auto split: if_splits)

lemma py_round_of_int: "py_round (of_int n) = n"
  by (simp add: py_round_def)

lemma py_round_mono: "x \<le> y \<Longrightarrow> py_round x \<le> py_round y"
proof (rule ccontr)
  assume xy: "x \<le> y" and "\<not> py_round x \<le> py_round y"
  then have gt: "py_round y + 1 \<le> py_round x" by simp
  have nx: "\<bar>of_int (py_round x) - x\<bar> \<le> 1 / 2" and ny: "\<bar>of_int (py_round y) - y\<bar> \<le> 1 / 2"
    by (rule py_round_near)+
  from gt have g: "real_of_int (py_round y) + 1 \<le> of_int (py_round x)" by linarith
  then have eqs: "x = y" "of_int (py_round x) - x = 1 / 2" "y - of_int (py_round y) = 1 / 2"
    using nx ny xy by linarith+
  then have "py_round x = py_round y" by simp
  with gt show False by simp
qed

lemma py_round_nonneg: "0 \<le> x \<Longrightarrow> 0 \<le> py_round x"
  using py_round_mono[of 0 x] by (simp add: py_round_def)

lemma py_round_nonpos: "x \<le> 0 \<Longrightarrow> py_round x \<le> 0"
  using py_round_mono[of x 0] by (simp add: py_round_def)

lemma py_int_nonneg: "0 \<le> x \<Longrightarrow> py_int x = \<lfloor>x\<rfloor>"
  by (simp add: py_int_def)

lemma py_int_of_int: "py_int (of_int k) = k"
  by (simp add: py_int_def)

lemma not_Ints_iff_floor: "(x::real) \<notin> \<int> \<longleftrightarrow> of_int \<lfloor>x\<rfloor> \<noteq> x"
  by (metis Ints_of_int Ints_cases floor_of_int)

lemma trim2sample_defined:
  "r \<noteq> 0 \<Longrightarrow> trim2sample t r = Inr (of_int (py_int (of_int \<lceil>t * r\<rceil> / r * 1000)) / 1000)"
  by (simp add: trim2sample_def np_ceil_def)

lemma trim2sample_nonneg:
  assumes "0 \<le> t" and "0 < r"
  shows "trim2sample t r = Inr (of_int \<lfloor>of_int \<lceil>t * r\<rceil> / r * 1000\<rfloor> / 1000)"
proof -
  have "0 \<le> t * r" using assms by simp
  then have "0 \<le> real_of_int \<lceil>t * r\<rceil>" by linarith
  then have "0 \<le> real_of_int \<lceil>t * r\<rceil> / r * 1000" using assms by simp
  then show ?thesis using assms by (simp add: trim2sample_defined py_int_nonneg)
qed

lemma trim2sample_whole_ms_rate:
  assumes "r \<noteq> 0" and "1000 / r \<in> \<int>"
  shows "trim2sample t r = Inr (np_ceil (t * r) / r)"
proof -
  obtain n where n: "1000 / r = real_of_int n" using assms(2) by (auto elim: Ints_cases)
  have "np_ceil (t * r) / r * 1000 = of_int \<lceil>t * r\<rceil> * (1000 / r)"
    by (simp add: np_ceil_def)
  also have "\<dots> = of_int (\<lceil>t * r\<rceil> * n)" by (simp add: n)
  finally have "py_int (np_ceil (t * r) / r * 1000) = \<lceil>t * r\<rceil> * n"
    by (simp only: py_int_of_int)
  then have "trim2sample t r = Inr (of_int (\<lceil>t * r\<rceil> * n) / 1000)"
    using assms(1) by (simp add: trim2sample_def)
  also have "of_int (\<lceil>t * r\<rceil> * n) / 1000 = np_ceil (t * r) * (1000 / r) / 1000"
    by (simp add: n np_ceil_def)
  also have "\<dots> = np_ceil (t * r) / r" by simp
  finally show ?thesis .
qed

lemma trim2sample_whole_ms_rate_bounds:
  assumes "0 < r" and "1000 / r \<in> \<int>"
  shows "\<exists>y. trim2sample t r = Inr y \<and> t \<le> y \<and> y * r \<in> \<int>"
proof -
  have "trim2sample t r = Inr (np_ceil (t * r) / r)"
    using assms by (intro trim2sample_whole_ms_rate) simp_all
  moreover have "t * r \<le> np_ceil (t * r)" unfolding np_ceil_def by linarith
  then have "t \<le> np_ceil (t * r) / r" using assms(1) by (simp add: pos_le_divide_eq)
  moreover have "np_ceil (t * r) / r * r \<in> \<int>" using assms(1) by (simp add: np_ceil_def)
  ultimately show ?thesis by blast
qed

lemma trim2sample_idempotent:
  assumes "0 \<le> t" and "0 < r"
  shows "\<exists>y. trim2sample t r = Inr y \<and> trim2sample y r = Inr y"
proof -
  define k where "k = \<lceil>t * r\<rceil>"
  define m where "m = \<lfloor>of_int k / r * 1000\<rfloor>"
  define y where "y = real_of_int m / 1000"
  define k' where "k' = \<lceil>y * r\<rceil>"
  have first: "trim2sample t r = Inr y"
    using trim2sample_nonneg[OF assms] by (simp add: k_def m_def y_def)
  have "0 \<le> t * r" using assms by simp
  then have k0: "0 \<le> real_of_int k" unfolding k_def by linarith
  then have "0 \<le> real_of_int k / r * 1000" using assms by simp
  then have "0 \<le> m" unfolding m_def by simp
  then have y0: "0 \<le> y" unfolding y_def by simp
  have m_le: "real_of_int m \<le> of_int k / r * 1000" unfolding m_def by linarith
  have lt_m: "of_int k / r * 1000 < real_of_int m + 1" unfolding m_def by linarith
  have "y * r \<le> of_int k"
    unfolding y_def using m_le assms(2) by (simp add: field_simps)
  then have k'_le: "k' \<le> k" unfolding k'_def by (simp add: ceiling_le_iff)
  have "y * r \<le> of_int k'" unfolding k'_def by linarith
  then have "y \<le> of_int k' / r" using assms(2) by (simp add: pos_le_divide_eq)
  then have lo: "real_of_int m \<le> of_int k' / r * 1000" unfolding y_def by simp
  have "real_of_int k' / r * 1000 \<le> of_int k / r * 1000"
    using k'_le assms(2) by (simp add: divide_right_mono)
  then have hi: "real_of_int k' / r * 1000 < real_of_int m + 1" using lt_m by linarith
  have "\<lfloor>real_of_int k' / r * 1000\<rfloor> = m" using lo hi by (simp add: floor_unique)
  then have "trim2sample y r = Inr y"
    using trim2sample_nonneg[OF y0 assms(2)] by (simp add: k'_def y_def)
  with first show ?thesis by blast
qed

lemma trim2sample_idempotent_at_rate_3:
  "(0::real) \<le> 1 / 2 \<and> (0::real) < 3 \<and>
   (\<exists>y. trim2sample (1 / 2) 3 = Inr y \<and> trim2sample y 3 = Inr y)"
  using trim2sample_idempotent[of "1 / 2" 3] by simp

section \<open>Facts about binary64 rounding\<close>

lemma ulp_pos: "0 < ulp x"
  by (simp add: ulp_def)

lemma floor_log2_eq:
  assumes "2 powi e \<le> x" and "x < 2 powi (e + 1)"
  shows "\<lfloor>log 2 x\<rfloor> = e"
proof -
  have x: "0 < x" using assms(1) by (rule less_le_trans[rotated]) simp
  have "(2::real) powr real_of_int e = 2 powi e" "(2::real) powr (real_of_int e + 1) = 2 powi (e + 1)"
    using powr_real_of_int'[of 2 e] powr_real_of_int'[of 2 "e + 1"] by simp_all
  then show ?thesis using assms x by (simp add: floor_log_eq_powr_iff)
qed

lemma floor_log2_bounds:
  assumes "0 < x"
  shows "2 powi \<lfloor>log 2 x\<rfloor> \<le> x" and "x < 2 powi (\<lfloor>log 2 x\<rfloor> + 1)"
proof -
  have "(2::real) powr real_of_int \<lfloor>log 2 x\<rfloor> = 2 powi \<lfloor>log 2 x\<rfloor>"
    "(2::real) powr (real_of_int \<lfloor>log 2 x\<rfloor> + 1) = 2 powi (\<lfloor>log 2 x\<rfloor> + 1)"
    using powr_real_of_int'[of 2 "\<lfloor>log 2 x\<rfloor>"] powr_real_of_int'[of 2 "\<lfloor>log 2 x\<rfloor> + 1"] by simp_all
  moreover have "2 powr real_of_int \<lfloor>log 2 x\<rfloor> \<le> x \<and> x < 2 powr (real_of_int \<lfloor>log 2 x\<rfloor> + 1)"
    using floor_log_eq_powr_iff[of x 2 "\<lfloor>log 2 x\<rfloor>"] assms by simp
  ultimately show "2 powi \<lfloor>log 2 x\<rfloor> \<le> x" and "x < 2 powi (\<lfloor>log 2 x\<rfloor> + 1)" by simp_all
qed

lemma b64_eval:
  assumes "2 powi e \<le> \<bar>x\<bar>" and "\<bar>x\<bar> < 2 powi (e + 1)" and "- 1022 \<le> e"
  shows "b64 x = of_int (py_round (x / 2 powi (e - 52))) * 2 powi (e - 52)"
proof -
  have "\<lfloor>log 2 \<bar>x\<bar>\<rfloor> = e" using assms(1,2) by (rule floor_log2_eq)
  then have "ulp x = 2 powi (e - 52)" using assms(3) by (simp add: ulp_def expo_def)
  moreover have "x \<noteq> 0"
  proof
    assume "x = 0"
    with assms(1) have "(2::real) powi e \<le> 0" by simp
    moreover have "(0::real) < 2 powi e" by simp
    ultimately show False by linarith
  qed
  ultimately show ?thesis unfolding b64_def by (simp only: if_False)
qed


lemma b64_0: "b64 0 = 0"
  by (simp add: b64_def)

lemma b64_on_grid:
  assumes "x / ulp x = of_int n"
  shows "b64 x = x"
proof (cases "x = 0")
  case True
  then show ?thesis by (simp add: b64_def)
next
  case False
  have "of_int (py_round (x / ulp x)) * ulp x = of_int n * ulp x"
    by (simp only: assms py_round_of_int)
  also have "\<dots> = x" using ulp_pos[of x] assms[symmetric] by simp
  finally show ?thesis using False by (simp add: b64_def)
qed

lemma floor_log2_less:
  assumes "0 < x" and "x < 2 powi k"
  shows "\<lfloor>log 2 x\<rfloor> < k"
proof (rule ccontr)
  assume "\<not> \<lfloor>log 2 x\<rfloor> < k"
  then have "(2::real) powi k \<le> 2 powi \<lfloor>log 2 x\<rfloor>" by (intro power_int_increasing) simp_all
  also have "\<dots> \<le> x" using assms(1) by (rule floor_log2_bounds)
  finally show False using assms(2) by simp
qed

lemma floor_log2_ge:
  assumes "2 powi k \<le> x"
  shows "k \<le> \<lfloor>log 2 x\<rfloor>"
proof (rule ccontr)
  assume "\<not> k \<le> \<lfloor>log 2 x\<rfloor>"
  then have "\<lfloor>log 2 x\<rfloor> + 1 \<le> k" by simp
  then have "(2::real) powi (\<lfloor>log 2 x\<rfloor> + 1) \<le> 2 powi k" by (intro power_int_increasing) simp_all
  moreover have "0 < x" using assms by (rule less_le_trans[rotated]) simp
  then have "x < 2 powi (\<lfloor>log 2 x\<rfloor> + 1)" by (rule floor_log2_bounds)
  ultimately show False using assms by linarith
qed

lemma b64_exact:
  assumes "\<bar>m\<bar> < 2 ^ 53" and "- 1074 \<le> j"
  shows "b64 (of_int m * 2 powi j) = of_int m * 2 powi j"
proof (cases "m = 0")
  case True
  then show ?thesis by (simp add: b64_0)
next
  case False
  define x where "x = real_of_int m * 2 powi j"
  have x0: "0 < \<bar>x\<bar>" using False by (simp add: x_def)
  have "\<bar>x\<bar> = \<bar>real_of_int m\<bar> * 2 powi j" by (simp add: x_def abs_mult)
  also have "\<dots> < 2 ^ 53 * 2 powi j"
  proof -
    have "\<bar>real_of_int m\<bar> < 2 ^ 53" using assms(1) by (metis of_int_abs of_int_less_numeral_power_cancel_iff)
    then show ?thesis by (intro mult_strict_right_mono) simp_all
  qed
  also have "\<dots> = 2 powi (j + 53)" by (simp add: power_int_add)
  finally have "\<lfloor>log 2 \<bar>x\<bar>\<rfloor> < j + 53" using x0 by (intro floor_log2_less)
  then have e: "expo x \<le> j + 52" using assms(2) by (simp add: expo_def)
  define k where "k = nat (j + 52 - expo x)"
  have kk: "int k = j + 52 - expo x" using e by (simp add: k_def)
  have "x / ulp x = of_int m * (2 powi j / 2 powi (expo x - 52))" by (simp add: x_def ulp_def)
  also have "2 powi j / 2 powi (expo x - 52) = (2::real) powi (j - (expo x - 52))"
    by (simp add: power_int_diff)
  also have "j - (expo x - 52) = int k" using kk by simp
  also have "real_of_int m * 2 powi int k = of_int (m * 2 ^ k)" by simp
  finally have "b64 x = x" by (rule b64_on_grid)
  then show ?thesis by (simp add: x_def)
qed

lemma b64_of_int: "\<bar>m\<bar> < 2 ^ 53 \<Longrightarrow> b64 (of_int m) = of_int m"
  using b64_exact[of m 0] by simp

lemma b64_half_int: "\<bar>m\<bar> < 2 ^ 53 \<Longrightarrow> b64 (of_int m / 2) = of_int m / 2"
  using b64_exact[of m "- 1"] by (simp add: field_simps)

lemma b64_error_ulp: "\<bar>b64 x - x\<bar> \<le> ulp x / 2"
proof (cases "x = 0")
  case True
  then show ?thesis using ulp_pos[of x] by (simp add: b64_def)
next
  case False
  have "b64 x - x = (of_int (py_round (x / ulp x)) - x / ulp x) * ulp x"
    using False ulp_pos[of x] by (simp add: b64_def field_simps)
  then have "\<bar>b64 x - x\<bar> = \<bar>of_int (py_round (x / ulp x)) - x / ulp x\<bar> * ulp x"
    using ulp_pos[of x] by (simp add: abs_mult)
  also have "\<dots> \<le> (1 / 2) * ulp x"
    using py_round_near[of "x / ulp x"] ulp_pos[of x] by (intro mult_right_mono) simp_all
  finally show ?thesis by simp
qed

lemma ulp_bound:
  assumes "x \<noteq> 0"
  shows "ulp x \<le> 2 powi (- 52) * \<bar>x\<bar> + 2 powi (- 1074)"
proof (cases "- 1022 \<le> \<lfloor>log 2 \<bar>x\<bar>\<rfloor>")
  case True
  then have "expo x = \<lfloor>log 2 \<bar>x\<bar>\<rfloor>" by (simp add: expo_def)
  then have "ulp x = 2 powi (- 52) * 2 powi \<lfloor>log 2 \<bar>x\<bar>\<rfloor>"
    by (simp add: ulp_def power_int_diff power_int_minus field_simps)
  also have "\<dots> \<le> 2 powi (- 52) * \<bar>x\<bar>"
    using assms by (intro mult_left_mono floor_log2_bounds) simp_all
  also have "\<dots> \<le> 2 powi (- 52) * \<bar>x\<bar> + 2 powi (- 1074)" by simp
  finally show ?thesis .
next
  case False
  then have "expo x = - 1022" by (auto simp add: expo_def)
  then have "ulp x = 2 powi (- 1022 - 52)" unfolding ulp_def by (simp only:)
  also have "\<dots> = 2 powi (- 1074)" by simp
  also have "\<dots> \<le> 2 powi (- 52) * \<bar>x\<bar> + 2 powi (- 1074)" by simp
  finally show ?thesis .
qed

lemma b64_error: "\<bar>b64 x - x\<bar> \<le> 2 powi (- 53) * \<bar>x\<bar> + 2 powi (- 1075)"
proof (cases "x = 0")
  case True
  then show ?thesis by (simp add: b64_0)
next
  case False
  have "\<bar>b64 x - x\<bar> \<le> ulp x / 2" by (rule b64_error_ulp)
  also have "\<dots> \<le> (2 powi (- 52) * \<bar>x\<bar> + 2 powi (- 1074)) / 2"
    using ulp_bound[OF False] by simp
  also have "\<dots> = 2 powi (- 53) * \<bar>x\<bar> + 2 powi (- 1075)"
  proof -
    have "(2::real) powi (- 52) / 2 = 2 powi (- 53)" "(2::real) powi (- 1074) / 2 = 2 powi (- 1075)"
      using power_int_add[of "2::real" "- 53" 1] power_int_add[of "2::real" "- 1075" 1] by simp_all
    then show ?thesis by (simp only: add_divide_distrib times_divide_eq_left[symmetric])
  qed
  finally show ?thesis .
qed

lemma b64_nonneg: "0 \<le> x \<Longrightarrow> 0 \<le> b64 x"
  using ulp_pos[of x] by (simp add: b64_def py_round_nonneg)

lemma b64_nonpos: "x \<le> 0 \<Longrightarrow> b64 x \<le> 0"
  using ulp_pos[of x] by (simp add: b64_def py_round_nonpos mult_nonpos_nonneg divide_nonpos_pos)

lemma rnd_evalI:
  assumes "2 powi e \<le> \<bar>x\<bar>" and "\<bar>x\<bar> < 2 powi (e + 1)" and "- 1022 \<le> e"
    and "of_int (py_round (x / 2 powi (e - 52))) * 2 powi (e - 52) = v"
    and "\<bar>v\<bar> < 2 ^ 1024"
  shows "rnd x = Finite v"
proof -
  have "b64 x = v" using b64_eval[OF assms(1-3)] assms(4) by simp
  then show ?thesis using assms(5) unfolding rnd_def Let_def by (simp only:) (simp add: abs_less_iff)
qed

lemma b64_evalI:
  assumes "2 powi e \<le> \<bar>x\<bar>" and "\<bar>x\<bar> < 2 powi (e + 1)" and "- 1022 \<le> e"
    and "of_int (py_round (x / 2 powi (e - 52))) * 2 powi (e - 52) = v"
  shows "b64 x = v"
  using b64_eval[OF assms(1-3)] assms(4) by simp

lemma rnd_0: "rnd 0 = Finite 0"
  by (simp add: rnd_def b64_0)

lemma tiny_pos: "0 < tiny"
  by (simp add: tiny_def)

lemma tiny_le: "tiny \<le> 1 / 2 ^ 1000"
  by (simp add: tiny_def)

lemma b64_err: "\<bar>b64 x - x\<bar> \<le> \<bar>x\<bar> / 2 ^ 53 + tiny"
  using b64_error[of x] by (simp add: tiny_def power_int_minus field_simps)

lemma rnd_finite:
  assumes "\<bar>x\<bar> \<le> 2 ^ 1023"
  shows "rnd x = Finite (b64 x)"
proof -
  have "\<bar>b64 x\<bar> \<le> \<bar>x\<bar> + (\<bar>x\<bar> / 2 ^ 53 + tiny)" using b64_err[of x] by linarith
  also have "\<dots> \<le> 2 ^ 1023 + (2 ^ 1023 / 2 ^ 53 + 1 / 2 ^ 1000)"
    using assms tiny_le by (intro add_mono divide_right_mono) simp_all
  also have "\<dots> < 2 ^ 1024" by simp
  finally have "\<bar>b64 x\<bar> < 2 ^ 1024" .
  then show ?thesis unfolding rnd_def Let_def by (simp add: abs_less_iff)
qed







section \<open>Facts about the kernels\<close>

lemma rnd_exact:
  assumes "\<bar>m\<bar> < 2 ^ 53" and "- 1074 \<le> j" and "\<bar>real_of_int m * 2 powi j\<bar> \<le> 2 ^ 1023"
  shows "rnd (of_int m * 2 powi j) = Finite (of_int m * 2 powi j)"
  using rnd_finite[OF assms(3)] b64_exact[OF assms(1,2)] by simp

lemma rnd_int: "\<bar>m\<bar> < 2 ^ 53 \<Longrightarrow> rnd (of_int m) = Finite (of_int m)"
proof -
  assume m: "\<bar>m\<bar> < 2 ^ 53"
  then have "\<bar>real_of_int m\<bar> < 2 ^ 53" by (metis of_int_abs of_int_less_numeral_power_cancel_iff)
  then have "\<bar>real_of_int m * 2 powi 0\<bar> \<le> 2 ^ 1023" by simp
  then show ?thesis using rnd_exact[OF m, of 0] by simp
qed

lemma rnd_half_int: "\<bar>m\<bar> < 2 ^ 53 \<Longrightarrow> rnd (of_int m / 2) = Finite (of_int m / 2)"
proof -
  assume m: "\<bar>m\<bar> < 2 ^ 53"
  then have "\<bar>real_of_int m\<bar> < 2 ^ 53" by (metis of_int_abs of_int_less_numeral_power_cancel_iff)
  then have "\<bar>real_of_int m * 2 powi (- 1)\<bar> \<le> 2 ^ 1023" by (simp add: abs_mult)
  then show ?thesis using rnd_exact[OF m, of "- 1"] by (simp add: field_simps)
qed

lemma coord_half_int: "coord n i = of_int (2 * int i - n + 1) / 2"
  by (simp add: coord_def field_simps)

lemma half_extent_exact:
  assumes "0 < n" and "n \<le> 2 ^ 53"
  shows "half_extent n = Inr ((of_int n - 1) / 2)"
proof -
  have "\<bar>n - 1\<bar> < 2 ^ 53" using assms by simp
  then have "rnd (of_int (n - 1) / 2) = Finite (of_int (n - 1) / 2)" by (rule rnd_half_int)
  then show ?thesis by (simp add: half_extent_def)
qed

lemma linspace_centred:
  assumes "0 < n" and "n \<le> 2 ^ 53"
  shows "linspace (Finite (- ((of_int n - 1) / 2))) (Finite ((of_int n - 1) / 2)) n = Inr (axis n)"
proof (cases "n = 1")
  case True
  then show ?thesis by (simp add: linspace_def axis_def coord_def f_sub_def rnd_0)
next
  case False
  with assms have n: "1 < n" by simp
  define h where "h = (real_of_int n - 1) / 2"
  have m1: "\<bar>n - 1\<bar> < 2 ^ 53" using assms by simp
  have delta: "f_sub (Finite h) (Finite (- h)) = Finite (of_int (n - 1))"
    using rnd_int[OF m1] by (simp add: f_sub_def h_def)
  have "rnd (real_of_int (n - 1) / real_of_int (n - 1)) = Finite 1"
    using n rnd_int[of 1] by simp
  then have step: "f_div (Finite (of_int (n - 1))) (Finite (of_int (n - 1))) = Finite 1"
    using n by simp
  have pt: "f_add (f_mul (rnd (of_nat i)) (Finite 1)) (Finite (- h)) = Finite (coord n i)"
    if "i < nat n" for i
  proof -
    have i: "\<bar>int i\<bar> < 2 ^ 53" using that assms by simp
    have a: "rnd (of_nat i) = Finite (of_nat i)" using rnd_int[OF i] by simp
    have b: "f_mul (Finite (of_nat i)) (Finite 1) = Finite (of_nat i)" using rnd_int[OF i] by simp
    have "\<bar>2 * int i - n + 1\<bar> < 2 ^ 53" using that assms by simp
    then have "rnd (of_int (2 * int i - n + 1) / 2) = Finite (of_int (2 * int i - n + 1) / 2)"
      by (rule rnd_half_int)
    moreover have "real i + - h = real_of_int (2 * int i - n + 1) / 2" by (simp add: h_def field_simps)
    ultimately have "f_add (Finite (of_nat i)) (Finite (- h)) = Finite (coord n i)"
      by (simp only: f_add.simps coord_half_int)
    then show ?thesis by (simp only: a b)
  qed
  have pts: "map (\<lambda>i. f_add (f_mul (rnd (of_nat i)) (Finite 1)) (Finite (- h))) [0..<nat n] = axis n"
    unfolding axis_def by (simp add: pt)
  have "real (nat n - 1) = of_int n - 1" using n by (simp add: of_nat_diff)
  then have last: "Finite h = axis n ! (nat n - 1)"
    using n by (simp add: axis_def coord_def h_def field_simps)
  have "linspace (Finite (- h)) (Finite h) n = Inr ((axis n)[nat n - 1 := Finite h])"
    using n unfolding linspace_def Let_def delta step by (simp add: comp_def pts)
  also have "(axis n)[nat n - 1 := Finite h] = axis n"
    by (subst last) (simp only: list_update_id)
  finally show ?thesis unfolding h_def .
qed

lemma map2_same_source:
  "map2 h (map f xs) (map g xs) = map (\<lambda>x. h (f x) (g x)) xs"
  by (induction xs) simp_all

lemma zip3d_grid3:
  "zip3d g (grid3 F x y z) (grid3 G x y z) = grid3 (\<lambda>a b c. g (F a b c) (G a b c)) x y z"
  unfolding zip3d_def grid3_def by (simp only: map2_same_source)

lemma map3d_grid3:
  "map3d g (grid3 F x y z) = grid3 (\<lambda>a b c. g (F a b c)) x y z"
  unfolding map3d_def grid3_def by (simp add: comp_def)

lemma meshgrid_ij_grid3:
  "meshgrid_ij x y z =
     (grid3 (\<lambda>a b c. a) x y z, grid3 (\<lambda>a b c. b) x y z, grid3 (\<lambda>a b c. c) x y z)"
  by (simp add: meshgrid_ij_def grid3_def)

lemma grid3_nth:
  "i < length x \<Longrightarrow> j < length y \<Longrightarrow> k < length z \<Longrightarrow>
   grid3 F x y z ! i ! j ! k = F (x ! i) (y ! j) (z ! k)"
  by (simp add: grid3_def)

lemma grid3_shape:
  "length (grid3 F x y z) = length x"
  "i < length x \<Longrightarrow> length (grid3 F x y z ! i) = length y"
  "i < length x \<Longrightarrow> j < length y \<Longrightarrow> length (grid3 F x y z ! i ! j) = length z"
  by (simp_all add: grid3_def)


lemma length_concat_uniform:
  "(\<And>ys. ys \<in> set xss \<Longrightarrow> length ys = n) \<Longrightarrow> length (concat xss) = length xss * n"
  by (induction xss) simp_all

lemma grid3_count:
  "length (elements3 (grid3 F x y z)) = length x * length y * length z"
proof -
  have rows: "length (concat (grid3 F x y z)) = length x * length y"
    by (subst length_concat_uniform[where n = "length y"]) (auto simp add: grid3_def)
  have "length (concat (concat (grid3 F x y z))) = length (concat (grid3 F x y z)) * length z"
    by (rule length_concat_uniform) (auto simp add: grid3_def)
  then show ?thesis by (simp add: elements3_def rows)
qed

lemma gaussian_3d_closed_form:
  assumes "0 < nx" and "nx \<le> 2 ^ 53" and "0 < ny" and "ny \<le> 2 ^ 53" and "0 < nz" and "nz \<le> 2 ^ 53"
    and "sigma_components sgm = Inr (sx, sy, sz)"
  shows "gaussian_3d nx ny nz sgm = Inr (grid3 (kernel_value sx sy sz) (axis nx) (axis ny) (axis nz))"
proof -
  have h: "half_extent nx = Inr ((of_int nx - 1) / 2)" "half_extent ny = Inr ((of_int ny - 1) / 2)"
    "half_extent nz = Inr ((of_int nz - 1) / 2)"
    using assms(1-6) by (simp_all only: half_extent_exact)
  have l: "linspace (Finite (- ((of_int nx - 1) / 2))) (Finite ((of_int nx - 1) / 2)) nx = Inr (axis nx)"
    "linspace (Finite (- ((of_int ny - 1) / 2))) (Finite ((of_int ny - 1) / 2)) ny = Inr (axis ny)"
    "linspace (Finite (- ((of_int nz - 1) / 2))) (Finite ((of_int nz - 1) / 2)) nz = Inr (axis nz)"
    using assms(1-6) by (simp_all only: linspace_centred)
  show ?thesis
    unfolding gaussian_3d_def kernel_value_def[abs_def]
    by (simp only: h l sum.case meshgrid_ij_grid3 prod.case assms(7) zip3d_grid3 map3d_grid3)
qed

lemma axis_length: "length (axis n) = nat n"
  by (simp add: axis_def)

lemma axis_nth: "i < nat n \<Longrightarrow> axis n ! i = Finite (coord n i)"
  by (simp add: axis_def)

lemma gaussian_3d_voxel:
  assumes "0 < nx" and "nx \<le> 2 ^ 53" and "0 < ny" and "ny \<le> 2 ^ 53" and "0 < nz" and "nz \<le> 2 ^ 53"
    and "sigma_components sgm = Inr (sx, sy, sz)"
    and "i < nat nx" and "j < nat ny" and "k < nat nz"
  shows "voxel (gaussian_3d nx ny nz sgm) i j k =
           Some (kernel_value sx sy sz (Finite (coord nx i)) (Finite (coord ny j)) (Finite (coord nz k)))"
  using assms(8-10)
  by (simp add: gaussian_3d_closed_form[OF assms(1-7)] voxel_def grid3_shape grid3_nth axis_length axis_nth)




lemma sigma_components_Seq3: "sigma_components (Seq [sx, sy, sz]) = Inr (sx, sy, sz)"
  by (simp add: sigma_components_def)







lemma b64_le_1:
  assumes "0 \<le> y" and "y \<le> 1"
  shows "b64 y \<le> 1"
proof (cases "y = 0")
  case True
  then show ?thesis by (simp add: b64_0)
next
  case False
  then have y: "0 < y" using assms(1) by simp
  have "y < 2 powi 1" using assms(2) by simp
  then have "\<lfloor>log 2 \<bar>y\<bar>\<rfloor> < 1" using y by (intro floor_log2_less) simp_all
  then have e: "expo y \<le> 0" by (simp add: expo_def)
  define k where "k = nat (52 - expo y)"
  have kk: "int k = 52 - expo y" using e by (simp add: k_def)
  have "1 / ulp y = 2 powi (- (expo y - 52))" unfolding ulp_def by (simp only: power_int_minus_divide)
  also have "- (expo y - 52) = int k" using kk by simp
  finally have inv: "1 / ulp y = of_int (2 ^ k)" by simp
  have "y / ulp y \<le> 1 / ulp y" using assms(2) ulp_pos[of y] by (intro divide_right_mono) simp_all
  then have "py_round (y / ulp y) \<le> py_round (of_int (2 ^ k))" unfolding inv by (rule py_round_mono)
  then have "py_round (y / ulp y) \<le> 2 ^ k" by (simp only: py_round_of_int)
  then have "real_of_int (py_round (y / ulp y)) \<le> 1 / ulp y" unfolding inv by linarith
  then have "real_of_int (py_round (y / ulp y)) * ulp y \<le> 1"
    using ulp_pos[of y] by (simp add: field_simps)
  then show ?thesis using False by (simp add: b64_def)
qed

lemma b64_1: "b64 1 = 1"
  using b64_of_int[of 1] by simp




lemma coord_bound:
  assumes "i < nat n" and "n \<le> 2 ^ 53"
  shows "\<bar>coord n i\<bar> \<le> 2 ^ 53"
proof -
  have "\<bar>2 * int i - n + 1\<bar> \<le> 2 ^ 53" using assms by simp
  then have "\<bar>real_of_int (2 * int i - n + 1)\<bar> \<le> 2 ^ 53"
    by (metis of_int_abs of_int_le_numeral_power_cancel_iff)
  then show ?thesis unfolding coord_half_int by simp
qed





lemma two_powi_add: "(2::real) powi (a + b) = 2 powi a * 2 powi b"
  by (simp add: power_int_add)

lemma py_round_unique:
  assumes "\<bar>of_int n - y\<bar> \<le> 1 / 2" and "\<bar>of_int n - y\<bar> = 1 / 2 \<Longrightarrow> even n"
  shows "py_round y = n"
proof (rule ccontr)
  assume ne: "py_round y \<noteq> n"
  have r: "\<bar>of_int (py_round y) - y\<bar> \<le> 1 / 2" by (rule py_round_near)
  have "\<bar>real_of_int (py_round y) - of_int n\<bar> \<le> 1" using r assms(1) by linarith
  then have "\<bar>py_round y - n\<bar> \<le> 1" by linarith
  with ne have d: "py_round y = n + 1 \<or> py_round y = n - 1" by linarith
  then have "\<bar>real_of_int (py_round y) - of_int n\<bar> = 1" by auto
  then have "\<bar>of_int (py_round y) - y\<bar> = 1 / 2" and "\<bar>of_int n - y\<bar> = 1 / 2"
    using r assms(1) by linarith+
  then have "even (py_round y)" and "even n" using py_round_tie assms(2) by blast+
  with d show False by auto
qed

lemma py_round_neg: "py_round (- y) = - py_round y"
proof (rule py_round_unique)
  have "\<bar>real_of_int (- py_round y) - - y\<bar> = \<bar>of_int (py_round y) - y\<bar>" by simp
  then show "\<bar>real_of_int (- py_round y) - - y\<bar> \<le> 1 / 2" using py_round_near[of y] by simp
  assume "\<bar>real_of_int (- py_round y) - - y\<bar> = 1 / 2"
  then have "\<bar>of_int (py_round y) - y\<bar> = 1 / 2" by linarith
  then show "even (- py_round y)" using py_round_tie by simp
qed

lemma b64_neg: "b64 (- x) = - b64 x"
proof -
  have "ulp (- x) = ulp x" by (simp add: ulp_def expo_def)
  then show ?thesis by (simp add: b64_def py_round_neg)
qed

lemma b64_repr: "\<exists>m j. b64 x = of_int m * 2 powi j \<and> \<bar>m\<bar> \<le> 2 ^ 53 \<and> - 1074 \<le> j"
proof (cases "x = 0")
  case True
  then have "b64 x = of_int 0 * 2 powi 0" by (simp add: b64_0)
  then show ?thesis by (intro exI[of _ 0] exI[of _ "0::int"]) simp
next
  case False
  then have pos: "0 < \<bar>x\<bar>" by simp
  have e: "\<lfloor>log 2 \<bar>x\<bar>\<rfloor> \<le> expo x" and e2: "- 1022 \<le> expo x" by (simp_all add: expo_def)
  have "\<bar>x\<bar> < 2 powi (\<lfloor>log 2 \<bar>x\<bar>\<rfloor> + 1)" using pos by (rule floor_log2_bounds)
  also have "\<dots> \<le> 2 powi (expo x + 1)" using e by (intro power_int_increasing) simp_all
  finally have lt: "\<bar>x\<bar> < 2 powi (expo x + 1)" .
  have u: "ulp x = 2 powi (expo x - 52)" by (simp add: ulp_def)
  have "expo x + 1 = expo x - 52 + 53" by simp
  then have "(2::real) powi (expo x + 1) = 2 powi (expo x - 52) * 2 powi 53"
    by (simp only: two_powi_add)
  then have "\<bar>x\<bar> < ulp x * 2 ^ 53" using lt u by simp
  then have a: "\<bar>x\<bar> / ulp x < 2 ^ 53" using ulp_pos[of x] by (simp add: pos_divide_less_eq mult.commute)
  define q where "q = x / ulp x"
  then have b: "\<bar>q\<bar> < 2 ^ 53" using ulp_pos[of x] a by (simp add: abs_divide)
  have b1: "q \<le> of_int (2 ^ 53)" and b2: "of_int (- (2 ^ 53)) \<le> q"
    using b by (simp_all add: abs_less_iff)
  have "py_round q \<le> 2 ^ 53" using py_round_mono[OF b1] by (simp only: py_round_of_int)
  moreover have "- (2 ^ 53) \<le> py_round q" using py_round_mono[OF b2] by (simp only: py_round_of_int)
  ultimately have "\<bar>py_round (x / ulp x)\<bar> \<le> 2 ^ 53" unfolding q_def by linarith
  moreover have "b64 x = of_int (py_round (x / ulp x)) * 2 powi (expo x - 52)"
    using False by (simp add: b64_def u)
  moreover have "- 1074 \<le> expo x - 52" using e2 by simp
  ultimately show ?thesis by blast
qed

lemma b64_idem: "b64 (b64 x) = b64 x"
proof -
  obtain m j where r: "b64 x = of_int m * 2 powi j" "\<bar>m\<bar> \<le> 2 ^ 53" "- 1074 \<le> j"
    using b64_repr by blast
  show ?thesis
  proof (cases "\<bar>m\<bar> < 2 ^ 53")
    case True
    then show ?thesis unfolding r(1) using r(3) by (rule b64_exact)
  next
    case False
    with r(2) have "\<bar>m\<bar> = 2 ^ 53" by simp
    then consider "m = 2 ^ 53" | "m = - (2 ^ 53)" by linarith
    then obtain s :: int where s: "\<bar>s\<bar> < 2 ^ 53" "m = s * 2 ^ 53" 
    proof cases
      case 1
      then show ?thesis using that[of 1] by simp
    next
      case 2
      then show ?thesis using that[of "- 1"] by simp
    qed
    have "(2::real) powi (j + 53) = 2 powi j * 2 powi 53"
      using power_int_add[of "2::real" j 53] by simp
    then have "b64 x = of_int s * 2 powi (j + 53)" unfolding r(1) s(2) by simp
    moreover have "- 1074 \<le> j + 53" using r(3) by simp
    ultimately show ?thesis using b64_exact[OF s(1), of "j + 53"] by simp
  qed
qed

lemma b64_double:
  assumes "2 powi (- 1022) \<le> \<bar>y\<bar>"
  shows "b64 (2 * y) = 2 * b64 y"
proof -
  define e where "e = \<lfloor>log 2 \<bar>y\<bar>\<rfloor>"
  have e: "- 1022 \<le> e" unfolding e_def using assms by (rule floor_log2_ge)
  have pos: "0 < \<bar>y\<bar>" using assms by (rule less_le_trans[rotated]) simp
  have lo: "2 powi e \<le> \<bar>y\<bar>" and hi: "\<bar>y\<bar> < 2 powi (e + 1)"
    unfolding e_def using pos by (rule floor_log2_bounds)+
  have p1: "(2::real) powi (e + 1) = 2 powi e * 2" using power_int_add[of "2::real" e 1] by simp
  have p2: "(2::real) powi (e + 1 + 1) = 2 powi (e + 1) * 2" using power_int_add[of "2::real" "e + 1" 1] by simp
  have p3: "(2::real) powi (e + 1 - 52) = 2 powi (e - 52) * 2" using power_int_add[of "2::real" "e - 52" 1] by simp
  have "2 powi (e + 1) \<le> \<bar>2 * y\<bar>" using lo p1 by (simp add: abs_mult)
  moreover have "\<bar>2 * y\<bar> < 2 powi (e + 1 + 1)" using hi p2 by (simp add: abs_mult)
  moreover have "- 1022 \<le> e + 1" using e by simp
  ultimately have "b64 (2 * y) = of_int (py_round (2 * y / 2 powi (e + 1 - 52))) * 2 powi (e + 1 - 52)"
    by (rule b64_eval)
  moreover have "b64 y = of_int (py_round (y / 2 powi (e - 52))) * 2 powi (e - 52)"
    using lo hi e by (rule b64_eval)
  moreover have "2 * y / 2 powi (e + 1 - 52) = y / 2 powi (e - 52)" unfolding p3 by simp
  ultimately show ?thesis unfolding p3 by simp
qed

lemma exp_diff_le:
  fixes a b :: real
  assumes "a \<le> b"
  shows "exp b - exp a \<le> (b - a) * exp b"
proof -
  have "1 + (a - b) \<le> exp (a - b)" using exp_ge_add_one_self[of "a - b"] by simp
  then have "(1 + (a - b)) * exp b \<le> exp (a - b) * exp b" by (intro mult_right_mono) simp_all
  also have "\<dots> = exp a" by (simp add: exp_add[symmetric])
  finally show ?thesis by (simp add: algebra_simps)
qed

lemma exp_diff_bound:
  fixes a b :: real
  assumes "\<bar>a - b\<bar> \<le> d" and "a \<le> m" and "b \<le> m"
  shows "\<bar>exp a - exp b\<bar> \<le> d * exp m"
proof -
  have d0: "0 \<le> d" using assms(1) by linarith
  have step: "\<bar>exp x - exp y\<bar> \<le> d * exp m" if "x \<le> y" "y - x \<le> d" "y \<le> m" for x y :: real
  proof -
    have "exp y - exp x \<le> (y - x) * exp y" using that(1) by (rule exp_diff_le)
    also have "\<dots> \<le> d * exp y" using that(2) by (intro mult_right_mono) simp_all
    also have "\<dots> \<le> d * exp m" using that(3) d0 by (intro mult_left_mono) simp_all
    finally have "exp y - exp x \<le> d * exp m" .
    moreover have "exp x \<le> exp y" using that(1) by simp
    ultimately show ?thesis by linarith
  qed
  show ?thesis
  proof (cases "a \<le> b")
    case True
    then show ?thesis using step[of a b] assms by linarith
  next
    case False
    then have "\<bar>exp b - exp a\<bar> \<le> d * exp m" using step[of b a] assms by linarith
    then show ?thesis by linarith
  qed
qed

lemma exp_decay: "y * exp (- y) \<le> 1 / 2" for y :: real
proof -
  have "1 + (y - 1) \<le> exp (y - 1)" by (rule exp_ge_add_one_self)
  then have "y \<le> exp y * exp (- 1)" by (simp add: exp_diff exp_minus field_simps)
  then have "y * exp (- y) \<le> (exp y * exp (- 1)) * exp (- y)" by (intro mult_right_mono) simp_all
  also have "\<dots> = exp (- 1)" by (simp add: exp_minus)
  also have "\<dots> \<le> 1 / 2"
  proof -
    have "(2::real) \<le> exp 1" using exp_ge_add_one_self[of "1::real"] by simp
    then have "1 / exp (1::real) \<le> 1 / 2" by (intro divide_left_mono) simp_all
    then show ?thesis by (simp add: exp_minus field_simps)
  qed
  finally show ?thesis .
qed

lemma exp_small: "0 \<le> x \<Longrightarrow> x \<le> 1 / 2 \<Longrightarrow> exp x \<le> 2" for x :: real
proof -
  assume x: "0 \<le> x" "x \<le> 1 / 2"
  have "1 + (- x) \<le> exp (- x)" by (rule exp_ge_add_one_self)
  then have "1 / 2 \<le> exp (- x)" using x by linarith
  then have "exp x * (1 / 2) \<le> exp x * exp (- x)" by (intro mult_left_mono) simp_all
  also have "\<dots> = 1" by (simp add: exp_add[symmetric])
  finally show ?thesis by simp
qed

lemma prod_close:
  fixes a b a' b' :: real
  assumes "0 \<le> b" and "b \<le> 1" and "0 \<le> a'" and "a' \<le> 1"
    and "\<bar>a - a'\<bar> \<le> d1" and "\<bar>b - b'\<bar> \<le> d2"
  shows "\<bar>a * b - a' * b'\<bar> \<le> d1 + d2"
proof -
  have "\<bar>(a - a') * b\<bar> \<le> d1 * 1"
    unfolding abs_mult using assms(1,2,5) by (intro mult_mono) simp_all
  moreover have "\<bar>a' * (b - b')\<bar> \<le> 1 * d2"
    unfolding abs_mult using assms(3,4,6) by (intro mult_mono) simp_all
  moreover have "a * b - a' * b' = (a - a') * b + a' * (b - b')" by (simp add: algebra_simps)
  ultimately show ?thesis by linarith
qed

lemma p53: "(2::real) ^ 53 = 9007199254740992"
  by simp

lemma b64_unit:
  assumes "0 \<le> y" and "y \<le> 1"
  shows "0 \<le> b64 y" and "b64 y \<le> 1" and "\<bar>b64 y - y\<bar> \<le> 1 / 2 ^ 53 + tiny"
proof -
  show "0 \<le> b64 y" using assms(1) by (rule b64_nonneg)
  show "b64 y \<le> 1" using assms by (rule b64_le_1)
  have "\<bar>b64 y - y\<bar> \<le> \<bar>y\<bar> / 2 ^ 53 + tiny" by (rule b64_err)
  moreover have "\<bar>y\<bar> / 2 ^ 53 \<le> 1 / 2 ^ 53" using assms by (intro divide_right_mono) simp_all
  ultimately show "\<bar>b64 y - y\<bar> \<le> 1 / 2 ^ 53 + tiny" by linarith
qed

lemma rounded_sum_error:
  assumes "0 \<le> q1" and "0 \<le> q2" and "0 \<le> q3"
  shows "\<bar>b64 (b64 (- q1 + - q2) + - q3) + (q1 + q2 + q3)\<bar> \<le> 3 * (q1 + q2 + q3) / 2 ^ 53 + 3 * tiny"
    and "b64 (b64 (- q1 + - q2) + - q3) \<le> 0"
    and "\<bar>b64 (- q1 + - q2)\<bar> \<le> 2 * q1 + 2 * q2 + tiny"
proof -
  define a where "a = b64 (- q1 + - q2)"
  define S where "S = b64 (a + - q3)"
  have a0: "a \<le> 0" unfolding a_def using assms by (intro b64_nonpos) simp
  have h1: "\<bar>a - (- q1 + - q2)\<bar> \<le> \<bar>- q1 + - q2\<bar> / 2 ^ 53 + tiny" unfolding a_def by (rule b64_err)
  have h2: "\<bar>S - (a + - q3)\<bar> \<le> \<bar>a + - q3\<bar> / 2 ^ 53 + tiny" unfolding S_def by (rule b64_err)
  have n1: "\<bar>- q1 + - q2\<bar> = q1 + q2" using assms by simp
  have n2: "\<bar>a + - q3\<bar> = - a + q3" using assms a0 by simp
  have t: "0 < tiny" by (rule tiny_pos)
  define Q where "Q = q1 + q2"
  have Q0: "0 \<le> Q" unfolding Q_def using assms by simp
  have a1: "\<bar>a + Q\<bar> \<le> Q / 2 ^ 53 + tiny" using h1 unfolding n1 Q_def by simp
  have a2: "- a \<le> 2 * Q + tiny" using a1 Q0 unfolding p53 by linarith
  have "(- a + q3) / 2 ^ 53 \<le> (2 * Q + tiny + q3) / 2 ^ 53"
    using a2 by (intro divide_right_mono) simp_all
  also have "\<dots> = 2 * Q / 2 ^ 53 + tiny / 2 ^ 53 + q3 / 2 ^ 53" by (simp add: add_divide_distrib)
  also have "\<dots> \<le> 2 * Q / 2 ^ 53 + q3 / 2 ^ 53 + tiny" using t unfolding p53 by linarith
  finally have a3: "(- a + q3) / 2 ^ 53 \<le> 2 * Q / 2 ^ 53 + q3 / 2 ^ 53 + tiny" .
  have a4: "\<bar>S - (a + - q3)\<bar> \<le> 2 * Q / 2 ^ 53 + q3 / 2 ^ 53 + 2 * tiny"
    using h2 a3 unfolding n2 by linarith
  have "\<bar>S + (Q + q3)\<bar> \<le> \<bar>S - (a + - q3)\<bar> + \<bar>a + Q\<bar>" by linarith
  also have "\<dots> \<le> 3 * Q / 2 ^ 53 + q3 / 2 ^ 53 + 3 * tiny" using a4 a1 unfolding p53 by linarith
  also have "\<dots> \<le> 3 * Q / 2 ^ 53 + 3 * q3 / 2 ^ 53 + 3 * tiny" using assms(3) unfolding p53 by linarith
  also have "\<dots> = 3 * (Q + q3) / 2 ^ 53 + 3 * tiny" by (simp add: add_divide_distrib algebra_simps)
  finally show "\<bar>b64 (b64 (- q1 + - q2) + - q3) + (q1 + q2 + q3)\<bar> \<le> 3 * (q1 + q2 + q3) / 2 ^ 53 + 3 * tiny"
    unfolding S_def a_def Q_def .
  show "b64 (b64 (- q1 + - q2) + - q3) \<le> 0"
    unfolding a_def[symmetric] using a0 assms(3) by (intro b64_nonpos) simp
  have "2 * Q = 2 * q1 + 2 * q2" unfolding Q_def by simp
  then show "\<bar>b64 (- q1 + - q2)\<bar> \<le> 2 * q1 + 2 * q2 + tiny"
    using a2 a0 unfolding a_def[symmetric] by linarith
qed

lemma exp_rounded_sum:
  assumes "0 \<le> q1" and "0 \<le> q2" and "0 \<le> q3"
  shows "\<bar>exp (b64 (b64 (- q1 + - q2) + - q3)) - exp (- (q1 + q2 + q3))\<bar> \<le> 6 / 2 ^ 53 + 6 * tiny"
proof -
  define T where "T = q1 + q2 + q3"
  define S where "S = b64 (b64 (- q1 + - q2) + - q3)"
  define E where "E = exp (- (T / 2))"
  have T0: "0 \<le> T" unfolding T_def using assms by simp
  have t: "0 < tiny" "tiny \<le> 1 / 2 ^ 1000" by (rule tiny_pos, rule tiny_le)
  have d: "\<bar>S + T\<bar> \<le> 3 * T / 2 ^ 53 + 3 * tiny"
    unfolding S_def T_def using assms by (rule rounded_sum_error)
  have d': "\<bar>S - (- T)\<bar> \<le> 3 * T / 2 ^ 53 + 3 * tiny" using d by simp
  have m1: "S \<le> - (T / 2) + 3 * tiny" using d T0 unfolding p53 by linarith
  have m2: "- T \<le> - (T / 2) + 3 * tiny" using T0 t by linarith
  have "\<bar>exp S - exp (- T)\<bar> \<le> (3 * T / 2 ^ 53 + 3 * tiny) * exp (- (T / 2) + 3 * tiny)"
    using d' m1 m2 by (rule exp_diff_bound)
  also have "exp (- (T / 2) + 3 * tiny) = E * exp (3 * tiny)" by (simp only: exp_add E_def)
  also have "(3 * T / 2 ^ 53 + 3 * tiny) * (E * exp (3 * tiny)) \<le> (3 * T / 2 ^ 53 + 3 * tiny) * (E * 2)"
  proof -
    have "(1::real) / 2 ^ 1000 \<le> 1 / 6" by simp
    then have "3 * tiny \<le> 1 / 2" using t(2) by linarith
    then have "exp (3 * tiny) \<le> 2" using t(1) by (intro exp_small) simp_all
    then have "E * exp (3 * tiny) \<le> E * 2" unfolding E_def by (intro mult_left_mono) simp_all
    moreover have "0 \<le> 3 * T / 2 ^ 53 + 3 * tiny" using T0 t(1) by simp
    ultimately show ?thesis by (rule mult_left_mono)
  qed
  also have "\<dots> = 6 * (T * E) / 2 ^ 53 + 6 * (tiny * E)" by (simp add: algebra_simps)
  also have "\<dots> \<le> 6 * 1 / 2 ^ 53 + 6 * tiny"
  proof -
    have "T / 2 * exp (- (T / 2)) \<le> 1 / 2" by (rule exp_decay)
    then have "T * E \<le> 1" unfolding E_def by simp
    then have "6 * (T * E) / 2 ^ 53 \<le> 6 * 1 / 2 ^ 53" by (intro divide_right_mono mult_left_mono) simp_all
    moreover have "E \<le> 1" unfolding E_def using T0 by simp
    then have "tiny * E \<le> tiny * 1" using t by (intro mult_left_mono) simp_all
    ultimately show ?thesis by linarith
  qed
  finally show ?thesis unfolding S_def T_def by simp
qed

lemma rounded_product_error:
  assumes "0 \<le> q1" and "0 \<le> q2" and "0 \<le> q3"
  shows "\<bar>b64 (b64 (b64 (exp (- q1)) * b64 (exp (- q2))) * b64 (exp (- q3))) - exp (- (q1 + q2 + q3))\<bar>
           \<le> 5 / 2 ^ 53 + 5 * tiny"
    and "0 \<le> b64 (exp (- q1)) * b64 (exp (- q2))"
    and "b64 (exp (- q1)) * b64 (exp (- q2)) \<le> 1"
    and "0 \<le> b64 (b64 (exp (- q1)) * b64 (exp (- q2))) * b64 (exp (- q3))"
    and "b64 (b64 (exp (- q1)) * b64 (exp (- q2))) * b64 (exp (- q3)) \<le> 1"
proof -
  define e1 e2 e3 where "e1 = exp (- q1)" and "e2 = exp (- q2)" and "e3 = exp (- q3)"
  define g1 g2 g3 where "g1 = b64 e1" and "g2 = b64 e2" and "g3 = b64 e3"
  define p where "p = b64 (g1 * g2)"
  define W where "W = b64 (p * g3)"
  define eps where "eps = 1 / 2 ^ 53 + tiny"
  have e: "0 \<le> e1" "e1 \<le> 1" "0 \<le> e2" "e2 \<le> 1" "0 \<le> e3" "e3 \<le> 1"
    unfolding e1_def e2_def e3_def using assms by simp_all
  have g: "0 \<le> g1" "g1 \<le> 1" "\<bar>g1 - e1\<bar> \<le> eps" "0 \<le> g2" "g2 \<le> 1" "\<bar>g2 - e2\<bar> \<le> eps"
    "0 \<le> g3" "g3 \<le> 1" "\<bar>g3 - e3\<bar> \<le> eps"
    unfolding g1_def g2_def g3_def eps_def using e by (simp_all only: b64_unit)
  have g12: "0 \<le> g1 * g2" "g1 * g2 \<le> 1"
    using g(1,2,4,5) by (simp_all add: mult_le_one)
  have e12: "0 \<le> e1 * e2" "e1 * e2 \<le> 1"
    using e(1-4) by (simp_all add: mult_le_one)
  have p: "0 \<le> p" "p \<le> 1" "\<bar>p - g1 * g2\<bar> \<le> eps"
    unfolding p_def eps_def using g12 by (simp_all only: b64_unit)
  have pg: "0 \<le> p * g3" "p * g3 \<le> 1"
    using p(1,2) g(7,8) by (simp_all add: mult_le_one)
  have W: "\<bar>W - p * g3\<bar> \<le> eps"
    unfolding W_def eps_def using pg by (simp only: b64_unit)
  have c1: "\<bar>g1 * g2 - e1 * e2\<bar> \<le> eps + eps"
    using g(4,5) e(1,2) g(3,6) by (rule prod_close)
  have c2: "\<bar>p - e1 * e2\<bar> \<le> 3 * eps" using c1 p(3) by linarith
  have c3: "\<bar>p * g3 - e1 * e2 * e3\<bar> \<le> 3 * eps + eps"
    using g(7,8) e12 c2 g(9) by (rule prod_close)
  have "e1 * e2 * e3 = exp (- (q1 + q2 + q3))"
    unfolding e1_def e2_def e3_def by (simp add: exp_add[symmetric])
  then have "\<bar>W - exp (- (q1 + q2 + q3))\<bar> \<le> 5 * eps" using c3 W by linarith
  then show "\<bar>b64 (b64 (b64 (exp (- q1)) * b64 (exp (- q2))) * b64 (exp (- q3))) - exp (- (q1 + q2 + q3))\<bar>
           \<le> 5 / 2 ^ 53 + 5 * tiny"
    unfolding W_def p_def g1_def g2_def g3_def e1_def e2_def e3_def eps_def by simp
  show "0 \<le> b64 (exp (- q1)) * b64 (exp (- q2))" "b64 (exp (- q1)) * b64 (exp (- q2)) \<le> 1"
    using g12 unfolding g1_def g2_def e1_def e2_def by simp_all
  show "0 \<le> b64 (b64 (exp (- q1)) * b64 (exp (- q2))) * b64 (exp (- q3))"
    "b64 (b64 (exp (- q1)) * b64 (exp (- q2))) * b64 (exp (- q3)) \<le> 1"
    using pg unfolding p_def g1_def g2_def g3_def e1_def e2_def e3_def by simp_all
qed

lemma separable_error:
  assumes "0 \<le> q1" and "0 \<le> q2" and "0 \<le> q3"
  shows "\<bar>b64 (exp (b64 (b64 (- q1 + - q2) + - q3)))
          - b64 (b64 (b64 (exp (- q1)) * b64 (exp (- q2))) * b64 (exp (- q3)))\<bar> \<le> 1 / 2 ^ 49"
proof -
  define S where "S = b64 (b64 (- q1 + - q2) + - q3)"
  define W where "W = b64 (b64 (b64 (exp (- q1)) * b64 (exp (- q2))) * b64 (exp (- q3)))"
  define Z where "Z = exp (- (q1 + q2 + q3))"
  have S0: "S \<le> 0" unfolding S_def using assms by (rule rounded_sum_error)
  then have "0 \<le> exp S" "exp S \<le> 1" by simp_all
  then have v: "\<bar>b64 (exp S) - exp S\<bar> \<le> 1 / 2 ^ 53 + tiny" by (rule b64_unit)
  have s: "\<bar>exp S - Z\<bar> \<le> 6 / 2 ^ 53 + 6 * tiny"
    unfolding S_def Z_def using assms by (rule exp_rounded_sum)
  have w: "\<bar>W - Z\<bar> \<le> 5 / 2 ^ 53 + 5 * tiny"
    unfolding W_def Z_def using assms by (rule rounded_product_error)
  have t: "tiny \<le> 1 / 2 ^ 1000" by (rule tiny_le)
  have "\<bar>b64 (exp S) - W\<bar> \<le> 12 / 2 ^ 53 + 12 * tiny" using v s w by linarith
  also have "\<dots> \<le> 1 / 2 ^ 49" using t by simp
  finally show ?thesis unfolding S_def W_def .
qed

lemma gaussian_1d_profile: "gaussian_1d x 1 0 c = map (profile_value c) x"
  by (simp add: gaussian_1d_def profile_value_def)

lemma outer3_grid3:
  "outer3 (map f x) (map g y) (map h z) = grid3 (\<lambda>a b c. f_mul (f_mul (f a) (g b)) (h c)) x y z"
  by (simp add: outer3_def grid3_def comp_def)

lemma gaussian_3d_separable_spec_closed_form:
  assumes "0 < nx" and "nx \<le> 2 ^ 53" and "0 < ny" and "ny \<le> 2 ^ 53" and "0 < nz" and "nz \<le> 2 ^ 53"
    and "sigma_components sgm = Inr (sx, sy, sz)"
  shows "gaussian_3d_separable_spec nx ny nz sgm =
           Inr (grid3 (\<lambda>a b c. f_mul (f_mul (profile_value sx a) (profile_value sy b)) (profile_value sz c))
                  (axis nx) (axis ny) (axis nz))"
proof -
  have h: "half_extent nx = Inr ((of_int nx - 1) / 2)" "half_extent ny = Inr ((of_int ny - 1) / 2)"
    "half_extent nz = Inr ((of_int nz - 1) / 2)"
    using assms(1-6) by (simp_all only: half_extent_exact)
  have l: "linspace (Finite (- ((of_int nx - 1) / 2))) (Finite ((of_int nx - 1) / 2)) nx = Inr (axis nx)"
    "linspace (Finite (- ((of_int ny - 1) / 2))) (Finite ((of_int ny - 1) / 2)) ny = Inr (axis ny)"
    "linspace (Finite (- ((of_int nz - 1) / 2))) (Finite ((of_int nz - 1) / 2)) nz = Inr (axis nz)"
    using assms(1-6) by (simp_all only: linspace_centred)
  show ?thesis
    unfolding gaussian_3d_separable_spec_def
    by (simp only: h l sum.case assms(7) prod.case gaussian_1d_profile outer3_grid3)
qed

lemma gaussian_3d_separable_spec_voxel:
  assumes "0 < nx" and "nx \<le> 2 ^ 53" and "0 < ny" and "ny \<le> 2 ^ 53" and "0 < nz" and "nz \<le> 2 ^ 53"
    and "sigma_components sgm = Inr (sx, sy, sz)"
    and "i < nat nx" and "j < nat ny" and "k < nat nz"
  shows "voxel (gaussian_3d_separable_spec nx ny nz sgm) i j k =
           Some (f_mul (f_mul (profile_value sx (Finite (coord nx i))) (profile_value sy (Finite (coord ny j))))
                       (profile_value sz (Finite (coord nz k))))"
  using assms(8-10)
  by (simp add: gaussian_3d_separable_spec_closed_form[OF assms(1-7)] voxel_def grid3_shape grid3_nth
      axis_length axis_nth)

lemma tiny_le_1: "tiny \<le> 1"
proof -
  have "(1::real) / 2 ^ 1000 \<le> 1" by simp
  then show ?thesis by (rule order_trans[OF tiny_le])
qed

lemma tiny4_le: "4 * tiny \<le> 1 / 2 ^ 900"
proof -
  have "4 * tiny \<le> 4 * (1 / 2 ^ 1000)" using tiny_le by simp
  also have "\<dots> \<le> 1 / 2 ^ 900" by simp
  finally show ?thesis .
qed

lemma b64_crude:
  assumes "4 * tiny \<le> y"
  shows "y / 2 \<le> b64 y" and "b64 y \<le> 2 * y"
proof -
  have e: "\<bar>b64 y - y\<bar> \<le> \<bar>y\<bar> / 2 ^ 53 + tiny" by (rule b64_err)
  have y0: "0 \<le> y" using assms tiny_pos by linarith
  then have a: "\<bar>y\<bar> = y" by simp
  show "y / 2 \<le> b64 y" using e assms y0 unfolding a p53 by linarith
  show "b64 y \<le> 2 * y" using e assms y0 unfolding a p53 by linarith
qed

lemma unit_finite: "0 \<le> y \<Longrightarrow> y \<le> 1 \<Longrightarrow> rnd y = Finite (b64 y)"
proof -
  assume "0 \<le> y" "y \<le> 1"
  then have "\<bar>y\<bar> \<le> 1" by simp
  moreover have "(1::real) \<le> 2 ^ 1023" by simp
  ultimately have "\<bar>y\<bar> \<le> 2 ^ 1023" by (rule order_trans)
  then show ?thesis by (rule rnd_finite)
qed

lemma powi_1022_le: "2 powi (- 1022) \<le> (1::real) / 2 ^ 900"
proof -
  have "(2::real) powi (- 1022) \<le> 2 powi (- 900)" by (intro power_int_increasing) simp_all
  then show ?thesis by (simp add: power_int_minus field_simps)
qed

lemma sigma_square_range:
  fixes s :: real
  assumes "1 / 2 ^ 400 \<le> s" and "s \<le> 2 ^ 400"
  shows "1 / 2 ^ 800 \<le> s * s" and "s * s \<le> 2 ^ 800"
proof -
  have s0: "0 \<le> s" using assms(1) by (rule order_trans[rotated]) simp
  have "(1 / 2 ^ 400) * (1 / 2 ^ 400) \<le> s * s" using assms(1) by (intro mult_mono) simp_all
  then show "1 / 2 ^ 800 \<le> s * s" by simp
  have "s * s \<le> 2 ^ 400 * 2 ^ 400" using assms(2) s0 by (intro mult_mono) simp_all
  then show "s * s \<le> 2 ^ 800" by simp
qed

lemma denominators:
  assumes "b64 s = s" and "1 / 2 ^ 400 \<le> s" and "s \<le> 2 ^ 400"
  shows "two_sigma_sq s = Finite (2 * b64 (s * s))"
    and "f_mul (Finite 2) (f_mul (Finite s) (Finite s)) = Finite (2 * b64 (s * s))"
    and "1 / 2 ^ 800 \<le> 2 * b64 (s * s)" and "2 * b64 (s * s) \<le> 2 ^ 802"
proof -
  have s0: "0 \<le> s" using assms(2) by (rule order_trans[rotated]) simp
  have sq: "1 / 2 ^ 800 \<le> s * s" "s * s \<le> 2 ^ 800" using assms(2,3) by (rule sigma_square_range)+
  have "(1::real) / 2 ^ 900 \<le> 1 / 2 ^ 800" by simp
  then have sq9: "1 / 2 ^ 900 \<le> s * s" using sq(1) by (rule order_trans)
  have "4 * tiny \<le> s * s" using tiny4_le sq9 by (rule order_trans)
  then have b: "s * s / 2 \<le> b64 (s * s)" "b64 (s * s) \<le> 2 * (s * s)" by (rule b64_crude)+
  have "1 / 2 ^ 800 \<le> 2 * (s * s / 2)" using sq(1) by simp
  also have "\<dots> \<le> 2 * b64 (s * s)" using b(1) by (intro mult_left_mono) simp_all
  finally show lo: "1 / 2 ^ 800 \<le> 2 * b64 (s * s)" .
  have "2 * b64 (s * s) \<le> 2 * (2 * (s * s))" using b(2) by (intro mult_left_mono) simp_all
  also have "\<dots> \<le> 2 * (2 * 2 ^ 800)" using sq(2) by (intro mult_left_mono) simp_all
  also have "\<dots> = 2 ^ 802" by simp
  finally show hi: "2 * b64 (s * s) \<le> 2 ^ 802" .
  have "(1::real) / 2 ^ 900 \<le> 1 / 2 ^ 400" by simp
  then have "1 / 2 ^ 900 \<le> s" using assms(2) by (rule order_trans)
  then have "2 powi (- 1022) \<le> s" using powi_1022_le by (rule order_trans[rotated])
  then have n1: "2 powi (- 1022) \<le> \<bar>s\<bar>" using s0 by simp
  have "2 powi (- 1022) \<le> s * s" using powi_1022_le sq9 by (rule order_trans)
  then have n2: "2 powi (- 1022) \<le> \<bar>s * s\<bar>" by simp
  have b0: "0 \<le> b64 (s * s)" by (intro b64_nonneg) simp
  have "1 / 2 ^ 900 \<le> s * s / 2"
  proof -
    have "(1::real) / 2 ^ 900 \<le> 1 / 2 ^ 800 / 2" by simp
    also have "\<dots> \<le> s * s / 2" using sq(1) by (intro divide_right_mono) simp_all
    finally show ?thesis .
  qed
  then have "1 / 2 ^ 900 \<le> b64 (s * s)" using b(1) by (rule order_trans)
  then have "2 powi (- 1022) \<le> b64 (s * s)" using powi_1022_le by (rule order_trans[rotated])
  then have n3: "2 powi (- 1022) \<le> \<bar>b64 (s * s)\<bar>" using b0 by simp
  have d1: "b64 (2 * s) = 2 * s" using b64_double[OF n1] assms(1) by simp
  have d2: "b64 (2 * (s * s)) = 2 * b64 (s * s)" using n2 by (rule b64_double)
  have d3: "b64 (2 * b64 (s * s)) = 2 * b64 (s * s)" using b64_double[OF n3] by (simp only: b64_idem)
  have "2 * s \<le> 2 * 2 ^ 400" using assms(3) by simp
  also have "\<dots> \<le> (2::real) ^ 1023" by simp
  finally have "\<bar>2 * s\<bar> \<le> 2 ^ 1023" using s0 by simp
  then have r1: "rnd (2 * s) = Finite (2 * s)" using rnd_finite[of "2 * s"] d1 by simp
  have "2 * (s * s) \<le> 2 * 2 ^ 800" using sq(2) by simp
  also have "\<dots> \<le> (2::real) ^ 1023" by simp
  finally have "\<bar>2 * (s * s)\<bar> \<le> 2 ^ 1023" by simp
  then have r2: "rnd (2 * (s * s)) = Finite (2 * b64 (s * s))" using rnd_finite[of "2 * (s * s)"] d2 by simp
  have "s * s \<le> (2::real) ^ 1023" by (rule order_trans[OF sq(2)]) simp
  then have "\<bar>s * s\<bar> \<le> 2 ^ 1023" by simp
  then have r3: "rnd (s * s) = Finite (b64 (s * s))" by (rule rnd_finite)
  have "2 * b64 (s * s) \<le> (2::real) ^ 1023" by (rule order_trans[OF hi]) simp
  then have "\<bar>2 * b64 (s * s)\<bar> \<le> 2 ^ 1023" using b0 by simp
  then have r4: "rnd (2 * b64 (s * s)) = Finite (2 * b64 (s * s))"
    using rnd_finite[of "2 * b64 (s * s)"] d3 by simp
  have m: "2 * s * s = 2 * (s * s)" by simp
  show "two_sigma_sq s = Finite (2 * b64 (s * s))"
    unfolding two_sigma_sq_def by (simp only: f_mul.simps r1 m r2)
  show "f_mul (Finite 2) (f_mul (Finite s) (Finite s)) = Finite (2 * b64 (s * s))"
    by (simp only: f_mul.simps r3 r4)
qed

lemma square_finite_b64:
  assumes "\<bar>x\<bar> \<le> 2 ^ 53"
  shows "f_mul (Finite x) (Finite x) = Finite (b64 (x * x))"
    and "0 \<le> b64 (x * x)" and "b64 (x * x) \<le> 2 ^ 108"
proof -
  show "0 \<le> b64 (x * x)" by (intro b64_nonneg) simp
  have "\<bar>x * x\<bar> = \<bar>x\<bar> * \<bar>x\<bar>" by (simp add: abs_mult)
  also have "\<dots> \<le> 2 ^ 53 * 2 ^ 53" using assms by (intro mult_mono) simp_all
  also have "\<dots> = 2 ^ 106" by simp
  finally have x2: "\<bar>x * x\<bar> \<le> 2 ^ 106" .
  have "(2::real) ^ 106 \<le> 2 ^ 1023" by simp
  then have "\<bar>x * x\<bar> \<le> 2 ^ 1023" using x2 by (rule order_trans[rotated])
  then have "rnd (x * x) = Finite (b64 (x * x))" by (rule rnd_finite)
  then show "f_mul (Finite x) (Finite x) = Finite (b64 (x * x))" by simp
  define y where "y = x * x"
  have e: "\<bar>b64 y - y\<bar> \<le> \<bar>y\<bar> / 2 ^ 53 + tiny" by (rule b64_err)
  have "\<bar>y\<bar> / 2 ^ 53 \<le> \<bar>y\<bar>" by simp
  then have "b64 y \<le> 2 * \<bar>y\<bar> + 1" using e tiny_le_1 by linarith
  also have "\<dots> \<le> 2 * 2 ^ 106 + 1" using x2 unfolding y_def by (intro add_mono mult_left_mono) simp_all
  also have "\<dots> \<le> 2 ^ 108" by simp
  finally show "b64 (x * x) \<le> 2 ^ 108" unfolding y_def .
qed

lemma rounded_term_range:
  assumes "\<bar>x\<bar> \<le> 2 ^ 53" and "1 / 2 ^ 800 \<le> 2 * b64 (s * s)"
  shows "0 \<le> rounded_term s x" and "rounded_term s x \<le> 2 ^ 1000"
    and "\<bar>b64 (x * x) / (2 * b64 (s * s))\<bar> \<le> 2 ^ 1023"
proof -
  define X where "X = b64 (x * x)"
  define D where "D = 2 * b64 (s * s)"
  define r where "r = X / D"
  have X: "0 \<le> X" "X \<le> 2 ^ 108" unfolding X_def using assms(1) by (rule square_finite_b64)+
  have D: "1 / 2 ^ 800 \<le> D" unfolding D_def by (rule assms(2))
  have D0: "0 < D" using D by (rule less_le_trans[rotated]) simp
  have "r \<le> 2 ^ 108 / (1 / 2 ^ 800)" unfolding r_def using X D D0 by (intro frac_le) simp_all
  also have "\<dots> = 2 ^ 908" by simp
  finally have hi: "r \<le> 2 ^ 908" .
  have lo: "0 \<le> r" unfolding r_def using X(1) D0 by simp
  have a: "\<bar>r\<bar> = r" using lo by (rule abs_of_nonneg)
  have "r \<le> (2::real) ^ 1023" by (rule order_trans[OF hi]) simp
  then have "\<bar>r\<bar> \<le> 2 ^ 1023" by (simp only: a)
  then show "\<bar>b64 (x * x) / (2 * b64 (s * s))\<bar> \<le> 2 ^ 1023"
    unfolding r_def X_def D_def .
  show "0 \<le> rounded_term s x"
    unfolding rounded_term_def X_def[symmetric] D_def[symmetric] r_def[symmetric] using lo by (rule b64_nonneg)
  have e: "\<bar>b64 r - r\<bar> \<le> \<bar>r\<bar> / 2 ^ 53 + tiny" by (rule b64_err)
  have "b64 r \<le> 2 * r + 1" using e tiny_le_1 lo unfolding a p53 by linarith
  also have "\<dots> \<le> 2 * 2 ^ 908 + 1" using hi by (intro add_mono mult_left_mono) simp_all
  also have "\<dots> \<le> 2 ^ 1000" by simp
  finally show "rounded_term s x \<le> 2 ^ 1000" unfolding rounded_term_def r_def X_def D_def .
qed

lemma quotient_eval:
  assumes "\<bar>x\<bar> \<le> 2 ^ 53" and "1 / 2 ^ 800 \<le> 2 * b64 (s * s)"
  shows "f_div (Finite (b64 (x * x))) (Finite (2 * b64 (s * s))) = Finite (rounded_term s x)"
    and "f_div (Finite (- b64 (x * x))) (Finite (2 * b64 (s * s))) = Finite (- rounded_term s x)"
proof -
  define X where "X = b64 (x * x)"
  define D where "D = 2 * b64 (s * s)"
  have D: "1 / 2 ^ 800 \<le> D" unfolding D_def by (rule assms(2))
  have "0 < D" using D by (rule less_le_trans[rotated]) simp
  then have D0: "D \<noteq> 0" by simp
  have fin: "\<bar>X / D\<bar> \<le> 2 ^ 1023" unfolding X_def D_def using assms by (rule rounded_term_range)
  then have "rnd (X / D) = Finite (b64 (X / D))" by (rule rnd_finite)
  then show "f_div (Finite (b64 (x * x))) (Finite (2 * b64 (s * s))) = Finite (rounded_term s x)"
    unfolding rounded_term_def X_def[symmetric] D_def[symmetric] using D0 by simp
  have "\<bar>- (X / D)\<bar> \<le> 2 ^ 1023" using fin by simp
  then have "rnd (- (X / D)) = Finite (b64 (- (X / D)))" by (rule rnd_finite)
  then have "rnd (- X / D) = Finite (- b64 (X / D))" by (simp add: b64_neg)
  then show "f_div (Finite (- b64 (x * x))) (Finite (2 * b64 (s * s))) = Finite (- rounded_term s x)"
    unfolding rounded_term_def X_def[symmetric] D_def[symmetric] using D0 by simp
qed

lemma profile_value_eval:
  assumes "b64 x = x" and "\<bar>x\<bar> \<le> 2 ^ 53"
    and "b64 s = s" and "1 / 2 ^ 400 \<le> s" and "s \<le> 2 ^ 400"
  shows "profile_value s (Finite x) = Finite (b64 (exp (- rounded_term s x)))"
proof -
  define X where "X = b64 (x * x)"
  define q where "q = rounded_term s x"
  define g where "g = b64 (exp (- q))"
  have den: "f_mul (Finite 2) (f_mul (Finite s) (Finite s)) = Finite (2 * b64 (s * s))"
    and D: "1 / 2 ^ 800 \<le> 2 * b64 (s * s)"
    using assms(3-5) by (rule denominators)+
  have X: "0 \<le> X" "X \<le> 2 ^ 108" unfolding X_def using assms(2) by (rule square_finite_b64)+
  have q0: "0 \<le> q" unfolding q_def using assms(2) D by (rule rounded_term_range)
  have "(2::real) ^ 53 \<le> 2 ^ 1023" by simp
  then have "\<bar>x\<bar> \<le> 2 ^ 1023" using assms(2) by (rule order_trans[rotated])
  then have "rnd x = Finite x" using rnd_finite[of x] assms(1) by simp
  then have s1: "f_sub (Finite x) (Finite 0) = Finite x" by (simp add: f_sub_def)
  have s2: "f_mul (Finite x) (Finite x) = Finite X" unfolding X_def using assms(2) by (rule square_finite_b64)
  have "b64 (- X) = - X" unfolding X_def by (simp only: b64_neg b64_idem)
  moreover have "X \<le> (2::real) ^ 1023" by (rule order_trans[OF X(2)]) simp
  then have "\<bar>- X\<bar> \<le> 2 ^ 1023" using X(1) by simp
  ultimately have "rnd (- X) = Finite (- X)" using rnd_finite[of "- X"] by simp
  then have s3: "f_mul (Finite (- 1)) (Finite X) = Finite (- X)" by simp
  have s4: "f_div (Finite (- X)) (Finite (2 * b64 (s * s))) = Finite (- q)"
    unfolding X_def q_def using assms(2) D by (rule quotient_eval)
  have e: "0 \<le> exp (- q)" "exp (- q) \<le> 1" using q0 by simp_all
  then have "rnd (exp (- q)) = Finite g" unfolding g_def by (rule unit_finite)
  then have s5: "f_exp (Finite (- q)) = Finite g" by simp
  have g1: "0 \<le> g" "g \<le> 1" unfolding g_def using e by (rule b64_unit)+
  have "b64 g = g" unfolding g_def by (rule b64_idem)
  then have "rnd g = Finite g" using unit_finite[OF g1] by simp
  then have s6: "f_mul (Finite 1) (Finite g) = Finite g" by simp
  show ?thesis
    unfolding profile_value_def
    by (simp only: s1 s2 s3 den s4 s5 s6) (simp only: g_def q_def)
qed

lemma kernel_value_eval:
  assumes "\<bar>a\<bar> \<le> 2 ^ 53" and "\<bar>b\<bar> \<le> 2 ^ 53" and "\<bar>c\<bar> \<le> 2 ^ 53"
    and "b64 sx = sx" and "1 / 2 ^ 400 \<le> sx" and "sx \<le> 2 ^ 400"
    and "b64 sy = sy" and "1 / 2 ^ 400 \<le> sy" and "sy \<le> 2 ^ 400"
    and "b64 sz = sz" and "1 / 2 ^ 400 \<le> sz" and "sz \<le> 2 ^ 400"
  shows "kernel_value sx sy sz (Finite a) (Finite b) (Finite c) =
           Finite (b64 (exp (b64 (b64 (- rounded_term sx a + - rounded_term sy b) + - rounded_term sz c))))"
proof -
  define q1 q2 q3 where "q1 = rounded_term sx a" and "q2 = rounded_term sy b" and "q3 = rounded_term sz c"
  define M :: real where "M = 2 ^ 1000"
  have A2: "two_sigma_sq sx = Finite (2 * b64 (sx * sx))" and DA: "1 / 2 ^ 800 \<le> 2 * b64 (sx * sx)"
    using assms(4-6) by (rule denominators)+
  have B2: "two_sigma_sq sy = Finite (2 * b64 (sy * sy))" and DB: "1 / 2 ^ 800 \<le> 2 * b64 (sy * sy)"
    using assms(7-9) by (rule denominators)+
  have C2: "two_sigma_sq sz = Finite (2 * b64 (sz * sz))" and DC: "1 / 2 ^ 800 \<le> 2 * b64 (sz * sz)"
    using assms(10-12) by (rule denominators)+
  have A1: "f_mul (Finite a) (Finite a) = Finite (b64 (a * a))" using assms(1) by (rule square_finite_b64)
  have B1: "f_mul (Finite b) (Finite b) = Finite (b64 (b * b))" using assms(2) by (rule square_finite_b64)
  have C1: "f_mul (Finite c) (Finite c) = Finite (b64 (c * c))" using assms(3) by (rule square_finite_b64)
  have A3: "f_div (Finite (- b64 (a * a))) (Finite (2 * b64 (sx * sx))) = Finite (- q1)"
    unfolding q1_def using assms(1) DA by (rule quotient_eval)
  have B3: "f_div (Finite (b64 (b * b))) (Finite (2 * b64 (sy * sy))) = Finite q2"
    unfolding q2_def using assms(2) DB by (rule quotient_eval)
  have C3: "f_div (Finite (b64 (c * c))) (Finite (2 * b64 (sz * sz))) = Finite q3"
    unfolding q3_def using assms(3) DC by (rule quotient_eval)
  have q: "0 \<le> q1" "q1 \<le> M" "0 \<le> q2" "q2 \<le> M" "0 \<le> q3" "q3 \<le> M"
    unfolding q1_def q2_def q3_def M_def
    using rounded_term_range[OF assms(1) DA] rounded_term_range[OF assms(2) DB]
      rounded_term_range[OF assms(3) DC] by blast+
  have M: "5 * M + 1 \<le> 2 ^ 1023" unfolding M_def by simp
  have "\<bar>- q1 + - q2\<bar> \<le> 5 * M + 1" using q by linarith
  then have "\<bar>- q1 + - q2\<bar> \<le> 2 ^ 1023" using M by (rule order_trans)
  then have r1: "rnd (- q1 + - q2) = Finite (b64 (- q1 + - q2))" by (rule rnd_finite)
  define bb where "bb = b64 (- q1 + - q2)"
  have "\<bar>bb\<bar> \<le> 2 * q1 + 2 * q2 + tiny" unfolding bb_def using q(1,3,5) by (rule rounded_sum_error)
  then have "\<bar>bb + - q3\<bar> \<le> 5 * M + 1" using q tiny_le_1 by linarith
  then have "\<bar>b64 (- q1 + - q2) + - q3\<bar> \<le> 2 ^ 1023" unfolding bb_def using M by (rule order_trans)
  then have r2: "rnd (b64 (- q1 + - q2) + - q3) = Finite (b64 (b64 (- q1 + - q2) + - q3))" by (rule rnd_finite)
  have "b64 (b64 (- q1 + - q2) + - q3) \<le> 0" using q(1,3,5) by (rule rounded_sum_error)
  then have "0 \<le> exp (b64 (b64 (- q1 + - q2) + - q3))" "exp (b64 (b64 (- q1 + - q2) + - q3)) \<le> 1"
    by simp_all
  then have r3: "rnd (exp (b64 (b64 (- q1 + - q2) + - q3))) = Finite (b64 (exp (b64 (b64 (- q1 + - q2) + - q3))))"
    by (rule unit_finite)
  show ?thesis
    unfolding kernel_value_def q1_def[symmetric] q2_def[symmetric] q3_def[symmetric]
    by (simp only: A1 A2 A3 B1 B2 B3 C1 C2 C3 f_neg.simps f_sub_def f_add.simps f_exp.simps r1 r2 r3)
qed

lemma coord_b64: 
  assumes "i < nat n" and "n \<le> 2 ^ 53"
  shows "b64 (coord n i) = coord n i"
proof -
  have "\<bar>2 * int i - n + 1\<bar> < 2 ^ 53" using assms by simp
  then show ?thesis unfolding coord_half_int by (rule b64_half_int)
qed

lemma product_value_eval:
  assumes "0 \<le> q1" and "0 \<le> q2" and "0 \<le> q3"
  shows "f_mul (f_mul (Finite (b64 (exp (- q1)))) (Finite (b64 (exp (- q2))))) (Finite (b64 (exp (- q3))))
           = Finite (b64 (b64 (b64 (exp (- q1)) * b64 (exp (- q2))) * b64 (exp (- q3))))"
proof -
  have "rnd (b64 (exp (- q1)) * b64 (exp (- q2))) = Finite (b64 (b64 (exp (- q1)) * b64 (exp (- q2))))"
    using rounded_product_error(2,3)[OF assms] by (rule unit_finite)
  moreover have "rnd (b64 (b64 (exp (- q1)) * b64 (exp (- q2))) * b64 (exp (- q3)))
      = Finite (b64 (b64 (b64 (exp (- q1)) * b64 (exp (- q2))) * b64 (exp (- q3))))"
    using rounded_product_error(4,5)[OF assms] by (rule unit_finite)
  ultimately show ?thesis by (simp only: f_mul.simps)
qed

lemma b64_below_one:
  assumes "1 / 2 \<le> y" and "y < 1"
  shows "b64 y = of_int (py_round (y * 2 ^ 53)) / 2 ^ 53"
proof -
  have "b64 y = of_int (py_round (y / 2 powi (- 1 - 52))) * 2 powi (- 1 - 52)"
    using assms by (intro b64_eval) simp_all
  then show ?thesis by (simp add: power_int_minus field_simps)
qed

lemma exp_neg_bounds:
  fixes y :: real
  assumes "0 \<le> y"
  shows "1 - y \<le> exp (- y)" and "exp (- y) \<le> 1 - y + y * y"
proof -
  show "1 - y \<le> exp (- y)" using exp_ge_add_one_self[of "- y"] by simp
  have "1 + y \<le> exp y" by (rule exp_ge_add_one_self)
  then have "(1 + y) * exp (- y) \<le> exp y * exp (- y)" by (intro mult_right_mono) simp_all
  also have "\<dots> = 1" by (simp add: exp_add[symmetric])
  finally have a: "(1 + y) * exp (- y) \<le> 1" .
  have "0 \<le> y * y * y" using assms by simp
  then have "1 \<le> (1 + y) * (1 - y + y * y)" by (simp add: algebra_simps)
  with a have "(1 + y) * exp (- y) \<le> (1 + y) * (1 - y + y * y)" by linarith
  then show "exp (- y) \<le> 1 - y + y * y" using assms by (simp add: mult_le_cancel_left)
qed

lemma b64_exp_three: "b64 (exp (- (3 / 2 ^ 55))) = 1 - 1 / 2 ^ 53"
proof -
  define y :: real where "y = 3 / 2 ^ 55"
  define x where "x = exp (- y)"
  have y0: "0 \<le> y" "0 < y" unfolding y_def by simp_all
  have lo: "1 - y \<le> x" and hi: "x \<le> 1 - y + y * y" unfolding x_def using y0(1) by (rule exp_neg_bounds)+
  have x1: "x < 1" unfolding x_def using y0(2) by simp
  have x2: "1 / 2 \<le> x" using lo unfolding y_def by simp
  have b: "b64 x = of_int (py_round (x * 2 ^ 53)) / 2 ^ 53" using x2 x1 by (rule b64_below_one)
  have l: "2 ^ 53 - 3 / 4 \<le> x * 2 ^ 53"
  proof -
    have "(1 - y) * 2 ^ 53 \<le> x * 2 ^ 53" using lo by (intro mult_right_mono) simp_all
    then show ?thesis unfolding y_def by simp
  qed
  have h: "x * 2 ^ 53 \<le> 2 ^ 53 - 3 / 4 + 1 / 8"
  proof -
    have "x * 2 ^ 53 \<le> (1 - y + y * y) * 2 ^ 53" using hi by (intro mult_right_mono) simp_all
    also have "\<dots> \<le> 2 ^ 53 - 3 / 4 + 1 / 8" unfolding y_def by simp
    finally show ?thesis .
  qed
  have "py_round (x * 2 ^ 53) = 2 ^ 53 - 1"
  proof (rule py_round_unique)
    have n: "real_of_int (2 ^ 53 - 1) = 2 ^ 53 - 1" by simp
    show c: "\<bar>real_of_int (2 ^ 53 - 1) - x * 2 ^ 53\<bar> \<le> 1 / 2" unfolding n using l h by linarith
    assume "\<bar>real_of_int (2 ^ 53 - 1) - x * 2 ^ 53\<bar> = 1 / 2"
    then have False unfolding n using l h by linarith
    then show "even ((2::int) ^ 53 - 1)" ..
  qed
  then have "b64 x = (2 ^ 53 - 1) / 2 ^ 53" unfolding b by simp
  then show ?thesis unfolding x_def y_def by (simp add: field_simps)
qed

lemma b64_exp_one: "b64 (exp (- (1 / 2 ^ 55))) = 1"
proof -
  define y :: real where "y = 1 / 2 ^ 55"
  define x where "x = exp (- y)"
  have y0: "0 \<le> y" "0 < y" unfolding y_def by simp_all
  have lo: "1 - y \<le> x" unfolding x_def using y0(1) by (rule exp_neg_bounds)
  have x1: "x < 1" unfolding x_def using y0(2) by simp
  have x2: "1 / 2 \<le> x" using lo unfolding y_def by simp
  have b: "b64 x = of_int (py_round (x * 2 ^ 53)) / 2 ^ 53" using x2 x1 by (rule b64_below_one)
  have l: "2 ^ 53 - 1 / 4 \<le> x * 2 ^ 53"
  proof -
    have "(1 - y) * 2 ^ 53 \<le> x * 2 ^ 53" using lo by (intro mult_right_mono) simp_all
    then show ?thesis unfolding y_def by simp
  qed
  have h: "x * 2 ^ 53 < 2 ^ 53" using x1 by simp
  have "py_round (x * 2 ^ 53) = 2 ^ 53"
  proof (rule py_round_unique)
    have n: "real_of_int (2 ^ 53) = 2 ^ 53" by simp
    show c: "\<bar>real_of_int (2 ^ 53) - x * 2 ^ 53\<bar> \<le> 1 / 2" unfolding n using l h by linarith
    show "even ((2::int) ^ 53)" by simp
  qed
  then have "b64 x = 2 ^ 53 / 2 ^ 53" unfolding b by simp
  then show ?thesis unfolding x_def y_def by simp
qed

lemma rounded_term_example: "rounded_term 134217728 (- 1) = 1 / 2 ^ 55"
proof -
  have a: "b64 1 = 1" by (rule b64_1)
  have "b64 (of_int 1 * 2 powi 54) = of_int 1 * 2 powi 54" by (rule b64_exact) simp_all
  then have b: "b64 18014398509481984 = 18014398509481984" by simp
  have "b64 (of_int 1 * 2 powi (- 55)) = of_int 1 * 2 powi (- 55)" by (rule b64_exact) simp_all
  then have c: "b64 (1 / 36028797018963968) = 1 / 36028797018963968" by (simp add: power_int_minus)
  show ?thesis unfolding rounded_term_def by (simp add: a b c)
qed

lemma exponent_example:
  "b64 (b64 (- (1 / 2 ^ 55) + - (1 / 2 ^ 55)) + - (1 / 2 ^ 55)) = - (3 / 2 ^ 55)"
proof -
  have "b64 (of_int (- 1) * 2 powi (- 54)) = of_int (- 1) * 2 powi (- 54)" by (rule b64_exact) simp_all
  then have a: "b64 (- (1 / 18014398509481984)) = - (1 / 18014398509481984)" by (simp add: power_int_minus)
  have "b64 (of_int (- 3) * 2 powi (- 55)) = of_int (- 3) * 2 powi (- 55)" by (rule b64_exact) simp_all
  then have b: "b64 (- (3 / 36028797018963968)) = - (3 / 36028797018963968)" by (simp add: power_int_minus)
  show ?thesis by (simp add: a b)
qed

section \<open>Claims about the sample arithmetic\<close>

text \<open>
  C1. The claim is that for every \<open>t \<ge> 0\<close> and \<open>r > 0\<close> the value of \<open>trim2sample t r\<close>
  is at least \<open>t\<close> and is a whole number of samples at rate \<open>r\<close>. At the rate 3 the
  code returns 0.666 for the time 0.5, which is 1.998 samples, and returns 0.666 for the
  time 0.6665, which is less than the time asked for.
\<close>

theorem trim2sample_rate_3:
  "trim2sample (1 / 2) 3 = Inr (333 / 500) \<and> (333 / 500 :: real) * 3 \<notin> \<int> \<and>
   trim2sample (1333 / 2000) 3 = Inr (333 / 500) \<and> (333 / 500 :: real) < 1333 / 2000"
  by (simp add: trim2sample_def np_ceil_def py_int_def not_Ints_iff_floor)

text \<open>
  The same evaluation in binary64: Python returns the double nearest to 0.666 for both
  times, and it is below the double nearest to 0.6665.
\<close>

lemma trim2sample_f64_rate_3:
  "trim2sample_f64 (1 / 2) 3 = Inr (b64 (333 / 500)) \<and>
   trim2sample_f64 (b64 (1333 / 2000)) 3 = Inr (b64 (333 / 500)) \<and>
   b64 (333 / 500) < b64 (1333 / 2000)"
proof -
  have h1: "f_mul (Finite (1 / 2)) (Finite (3)) = Finite (3 / 2)"
    by (simp, (rule rnd_evalI[where e = "0"]; simp add: py_round_def))
  have h2: "np_ceil_f64 (Finite (3 / 2)) = Finite (2)"
    by simp
  have h3: "f_div (Finite (2)) (Finite (3)) = Finite (6004799503160661 / 2 ^ 53)"
    by (simp, (rule rnd_evalI[where e = "-1"]; simp add: py_round_def))
  have h4: "f_mul (Finite (6004799503160661 / 2 ^ 53)) (Finite (1000)) = Finite (5864062014805333 / 2 ^ 43)"
    by (simp, (rule rnd_evalI[where e = "9"]; simp add: py_round_def))
  have h5: "py_int (5864062014805333 / 2 ^ 43) = 666"
    by (simp add: py_int_def)
  have h6: "b64 (real_of_int (666) / 1000) = 5998794703657501 / 2 ^ 53"
    by (rule b64_evalI[where e = "-1"]) (simp_all add: py_round_def)
  have h7: "b64 (333 / 500) = 5998794703657501 / 2 ^ 53"
    by (rule b64_evalI[where e = "-1"]) (simp_all add: py_round_def)
  have h8: "trim2sample_f64 (1 / 2) (3) = Inr (b64 (333 / 500))"
    unfolding trim2sample_f64_def by (simp only: h1 h2 h3 h4 h5 h6 h7 f64.case)
  have h9: "b64 (1333 / 2000) = 6003298303284871 / 2 ^ 53"
    by (rule b64_evalI[where e = "-1"]) (simp_all add: py_round_def)
  have h10: "f_mul (Finite (6003298303284871 / 2 ^ 53)) (Finite (3)) = Finite (4502473727463653 / 2 ^ 51)"
    by (simp, (rule rnd_evalI[where e = "0"]; simp add: py_round_def))
  have h11: "np_ceil_f64 (Finite (4502473727463653 / 2 ^ 51)) = Finite (2)"
    by simp
  have h12: "f_div (Finite (2)) (Finite (3)) = Finite (6004799503160661 / 2 ^ 53)"
    by (simp, (rule rnd_evalI[where e = "-1"]; simp add: py_round_def))
  have h13: "f_mul (Finite (6004799503160661 / 2 ^ 53)) (Finite (1000)) = Finite (5864062014805333 / 2 ^ 43)"
    by (simp, (rule rnd_evalI[where e = "9"]; simp add: py_round_def))
  have h14: "py_int (5864062014805333 / 2 ^ 43) = 666"
    by (simp add: py_int_def)
  have h15: "b64 (real_of_int (666) / 1000) = 5998794703657501 / 2 ^ 53"
    by (rule b64_evalI[where e = "-1"]) (simp_all add: py_round_def)
  have h16: "b64 (333 / 500) = 5998794703657501 / 2 ^ 53"
    by (rule b64_evalI[where e = "-1"]) (simp_all add: py_round_def)
  have h17: "trim2sample_f64 (b64 (1333 / 2000)) (3) = Inr (b64 (333 / 500))"
    unfolding trim2sample_f64_def by (simp only: h9 h10 h11 h12 h13 h14 h15 h16 f64.case)
  have h18: "b64 (333 / 500) = 5998794703657501 / 2 ^ 53"
    by (rule b64_evalI[where e = "-1"]) (simp_all add: py_round_def)
  have h19: "b64 (1333 / 2000) = 6003298303284871 / 2 ^ 53"
    by (rule b64_evalI[where e = "-1"]) (simp_all add: py_round_def)
  have h20: "b64 (333 / 500) < b64 (1333 / 2000)"
    by (simp only: h18 h19) simp
  show ?thesis using h8 h17 h20 by blast
qed

text \<open>
  C2. The claim is that the quotient \<open>ceil(time * sampling_rate) / sampling_rate\<close> is
  rounded to three decimal places. The code cuts it with \<open>int()\<close>: for the time 2.001 at
  the rate 100 the quotient is the double nearest to 2.01, its product with 1000 is just
  below 2010, and the code returns 2.009 where rounding to three places gives 2.01. The
  scenario of the claim, 1.003 at the rate 100, does return 1.01.
\<close>

theorem trim2sample_truncates_where_spec_rounds:
  "trim2sample_f64 (b64 (2001 / 1000)) 100 = Inr (b64 (2009 / 1000)) \<and>
   trim2sample_rounding_spec (b64 (2001 / 1000)) 100 = Inr (b64 (201 / 100)) \<and>
   b64 (2009 / 1000) \<noteq> b64 (201 / 100) \<and>
   trim2sample_f64 (b64 (1003 / 1000)) 100 = Inr (b64 (101 / 100))"
proof -
  have h1: "b64 (2001 / 1000) = 4505851427184181 / 2 ^ 51"
    by (rule b64_evalI[where e = "1"]) (simp_all add: py_round_def)
  have h2: "f_mul (Finite (4505851427184181 / 2 ^ 51)) (Finite (100)) = Finite (7040392854975283 / 2 ^ 45)"
    by (simp, (rule rnd_evalI[where e = "7"]; simp add: py_round_def))
  have h3: "np_ceil_f64 (Finite (7040392854975283 / 2 ^ 45)) = Finite (201)"
    by simp
  have h4: "f_div (Finite (201)) (Finite (100)) = Finite (1131529406376837 / 2 ^ 49)"
    by (simp, (rule rnd_evalI[where e = "1"]; simp add: py_round_def))
  have h5: "f_mul (Finite (1131529406376837 / 2 ^ 49)) (Finite (1000)) = Finite (8840073487319039 / 2 ^ 42)"
    by (simp, (rule rnd_evalI[where e = "10"]; simp add: py_round_def))
  have h6: "py_int (8840073487319039 / 2 ^ 42) = 2009"
    by (simp add: py_int_def)
  have h7: "b64 (real_of_int (2009) / 1000) = 4523865825693663 / 2 ^ 51"
    by (rule b64_evalI[where e = "1"]) (simp_all add: py_round_def)
  have h8: "b64 (2009 / 1000) = 4523865825693663 / 2 ^ 51"
    by (rule b64_evalI[where e = "1"]) (simp_all add: py_round_def)
  have h9: "trim2sample_f64 (b64 (2001 / 1000)) (100) = Inr (b64 (2009 / 1000))"
    unfolding trim2sample_f64_def by (simp only: h1 h2 h3 h4 h5 h6 h7 h8 f64.case)
  have h10: "b64 (2001 / 1000) = 4505851427184181 / 2 ^ 51"
    by (rule b64_evalI[where e = "1"]) (simp_all add: py_round_def)
  have h11: "f_mul (Finite (4505851427184181 / 2 ^ 51)) (Finite (100)) = Finite (7040392854975283 / 2 ^ 45)"
    by (simp, (rule rnd_evalI[where e = "7"]; simp add: py_round_def))
  have h12: "np_ceil_f64 (Finite (7040392854975283 / 2 ^ 45)) = Finite (201)"
    by simp
  have h13: "f_div (Finite (201)) (Finite (100)) = Finite (1131529406376837 / 2 ^ 49)"
    by (simp, (rule rnd_evalI[where e = "1"]; simp add: py_round_def))
  have h14: "py_round (1131529406376837 / 2 ^ 49 * 1000) = 2010"
    by (simp add: py_round_def)
  have h15: "b64 (real_of_int (2010) / 1000) = 1131529406376837 / 2 ^ 49"
    by (rule b64_evalI[where e = "1"]) (simp_all add: py_round_def)
  have h16: "b64 (201 / 100) = 1131529406376837 / 2 ^ 49"
    by (rule b64_evalI[where e = "1"]) (simp_all add: py_round_def)
  have h17: "trim2sample_rounding_spec (b64 (2001 / 1000)) (100) = Inr (b64 (201 / 100))"
    unfolding trim2sample_rounding_spec_def by (simp only: h10 h11 h12 h13 h14 h15 h16 f64.case)
  have h18: "b64 (2009 / 1000) = 4523865825693663 / 2 ^ 51"
    by (rule b64_evalI[where e = "1"]) (simp_all add: py_round_def)
  have h19: "b64 (201 / 100) = 1131529406376837 / 2 ^ 49"
    by (rule b64_evalI[where e = "1"]) (simp_all add: py_round_def)
  have h20: "b64 (2009 / 1000) \<noteq> b64 (201 / 100)"
    by (simp only: h18 h19) simp
  have h21: "b64 (1003 / 1000) = 4517110426252607 / 2 ^ 52"
    by (rule b64_evalI[where e = "0"]) (simp_all add: py_round_def)
  have h22: "f_mul (Finite (4517110426252607 / 2 ^ 52)) (Finite (100)) = Finite (3528992520509849 / 2 ^ 45)"
    by (simp, (rule rnd_evalI[where e = "6"]; simp add: py_round_def))
  have h23: "np_ceil_f64 (Finite (3528992520509849 / 2 ^ 45)) = Finite (101)"
    by simp
  have h24: "f_div (Finite (101)) (Finite (100)) = Finite (4548635623644201 / 2 ^ 52)"
    by (simp, (rule rnd_evalI[where e = "0"]; simp add: py_round_def))
  have h25: "f_mul (Finite (4548635623644201 / 2 ^ 52)) (Finite (1000)) = Finite (1010)"
    by (simp, (rule rnd_evalI[where e = "9"]; simp add: py_round_def))
  have h26: "py_int (1010) = 1010"
    by (simp add: py_int_def)
  have h27: "b64 (real_of_int (1010) / 1000) = 4548635623644201 / 2 ^ 52"
    by (rule b64_evalI[where e = "0"]) (simp_all add: py_round_def)
  have h28: "b64 (101 / 100) = 4548635623644201 / 2 ^ 52"
    by (rule b64_evalI[where e = "0"]) (simp_all add: py_round_def)
  have h29: "trim2sample_f64 (b64 (1003 / 1000)) (100) = Inr (b64 (101 / 100))"
    unfolding trim2sample_f64_def by (simp only: h21 h22 h23 h24 h25 h26 h27 h28 f64.case)
  show ?thesis using h9 h17 h20 h29 by blast
qed

text \<open>
  C7. The claim is that \<open>trim2sample\<close> applied twice gives what it gives applied once. For
  the time 0.241 at the rate 25 the code returns 0.28, and for 0.28 it returns 0.32: the
  double product \<open>0.28 * 25\<close> is just above 7 and its ceiling is 8. Without rounding the
  formula is idempotent (lemma \<open>trim2sample_idempotent\<close>).
\<close>

theorem trim2sample_f64_not_idempotent:
  "trim2sample_f64 (b64 (241 / 1000)) 25 = Inr (b64 (7 / 25)) \<and>
   trim2sample_f64 (b64 (7 / 25)) 25 = Inr (b64 (8 / 25)) \<and>
   b64 (7 / 25) \<noteq> b64 (8 / 25)"
proof -
  have h1: "b64 (241 / 1000) = 2170735020392579 / 2 ^ 53"
    by (rule b64_evalI[where e = "-3"]) (simp_all add: py_round_def)
  have h2: "f_mul (Finite (2170735020392579 / 2 ^ 53)) (Finite (25)) = Finite (6783546938726809 / 2 ^ 50)"
    by (simp, (rule rnd_evalI[where e = "2"]; simp add: py_round_def))
  have h3: "np_ceil_f64 (Finite (6783546938726809 / 2 ^ 50)) = Finite (7)"
    by simp
  have h4: "f_div (Finite (7)) (Finite (25)) = Finite (1261007895663739 / 2 ^ 52)"
    by (simp, (rule rnd_evalI[where e = "-2"]; simp add: py_round_def))
  have h5: "f_mul (Finite (1261007895663739 / 2 ^ 52)) (Finite (1000)) = Finite (280)"
    by (simp, (rule rnd_evalI[where e = "8"]; simp add: py_round_def))
  have h6: "py_int (280) = 280"
    by (simp add: py_int_def)
  have h7: "b64 (real_of_int (280) / 1000) = 1261007895663739 / 2 ^ 52"
    by (rule b64_evalI[where e = "-2"]) (simp_all add: py_round_def)
  have h8: "b64 (7 / 25) = 1261007895663739 / 2 ^ 52"
    by (rule b64_evalI[where e = "-2"]) (simp_all add: py_round_def)
  have h9: "trim2sample_f64 (b64 (241 / 1000)) (25) = Inr (b64 (7 / 25))"
    unfolding trim2sample_f64_def by (simp only: h1 h2 h3 h4 h5 h6 h7 h8 f64.case)
  have h10: "b64 (7 / 25) = 1261007895663739 / 2 ^ 52"
    by (rule b64_evalI[where e = "-2"]) (simp_all add: py_round_def)
  have h11: "f_mul (Finite (1261007895663739 / 2 ^ 52)) (Finite (25)) = Finite (7881299347898369 / 2 ^ 50)"
    by (simp, (rule rnd_evalI[where e = "2"]; simp add: py_round_def))
  have h12: "np_ceil_f64 (Finite (7881299347898369 / 2 ^ 50)) = Finite (8)"
    by simp
  have h13: "f_div (Finite (8)) (Finite (25)) = Finite (5764607523034235 / 2 ^ 54)"
    by (simp, (rule rnd_evalI[where e = "-2"]; simp add: py_round_def))
  have h14: "f_mul (Finite (5764607523034235 / 2 ^ 54)) (Finite (1000)) = Finite (320)"
    by (simp, (rule rnd_evalI[where e = "8"]; simp add: py_round_def))
  have h15: "py_int (320) = 320"
    by (simp add: py_int_def)
  have h16: "b64 (real_of_int (320) / 1000) = 5764607523034235 / 2 ^ 54"
    by (rule b64_evalI[where e = "-2"]) (simp_all add: py_round_def)
  have h17: "b64 (8 / 25) = 5764607523034235 / 2 ^ 54"
    by (rule b64_evalI[where e = "-2"]) (simp_all add: py_round_def)
  have h18: "trim2sample_f64 (b64 (7 / 25)) (25) = Inr (b64 (8 / 25))"
    unfolding trim2sample_f64_def by (simp only: h10 h11 h12 h13 h14 h15 h16 h17 f64.case)
  have h19: "b64 (7 / 25) = 1261007895663739 / 2 ^ 52"
    by (rule b64_evalI[where e = "-2"]) (simp_all add: py_round_def)
  have h20: "b64 (8 / 25) = 5764607523034235 / 2 ^ 54"
    by (rule b64_evalI[where e = "-2"]) (simp_all add: py_round_def)
  have h21: "b64 (7 / 25) \<noteq> b64 (8 / 25)"
    by (simp only: h19 h20) simp
  show ?thesis using h9 h18 h21 by blast
qed






section \<open>Claims about the kernels\<close>







text \<open>
  C5, as stated: the kernel equals the outer product of the three profiles. On a grid of
  3 by 3 by 3 points with every sigma \<open>2^27 = 134217728\<close> each term of the exponent at
  the first point is \<open>2^(-55)\<close>. The kernel takes \<open>exp\<close> of their sum, \<open>-3 * 2^(-55)\<close>,
  which rounds to the double below 1, \<open>1 - 2^(-53)\<close>; each profile takes \<open>exp\<close> of
  \<open>-2^(-55)\<close>, which rounds to 1, and the product of the three is 1.
\<close>

theorem gaussian_3d_separable_counterexample:
  "voxel (gaussian_3d 3 3 3 (Seq [134217728, 134217728, 134217728])) 0 0 0
     = Some (Finite (1 - 1 / 2 ^ 53)) \<and>
   voxel (gaussian_3d_separable_spec 3 3 3 (Seq [134217728, 134217728, 134217728])) 0 0 0
     = Some (Finite 1) \<and>
   (1 - 1 / 2 ^ 53 :: real) \<noteq> 1"
proof -
  let ?s = "134217728 :: real"
  have s: "b64 ?s = ?s" "1 / 2 ^ 400 \<le> ?s" "?s \<le> 2 ^ 400"
    using b64_of_int[of 134217728] by simp_all
  have c: "coord 3 0 = - 1" by (simp add: coord_def)
  have x: "b64 (- 1 :: real) = - 1" "\<bar>- 1 :: real\<bar> \<le> 2 ^ 53" using b64_of_int[of "- 1"] by simp_all
  have sc: "sigma_components (Seq [?s, ?s, ?s]) = Inr (?s, ?s, ?s)" by (rule sigma_components_Seq3)
  have "voxel (gaussian_3d 3 3 3 (Seq [?s, ?s, ?s])) 0 0 0
      = Some (kernel_value ?s ?s ?s (Finite (coord 3 0)) (Finite (coord 3 0)) (Finite (coord 3 0)))"
    using sc by (intro gaussian_3d_voxel) simp_all
  also have "kernel_value ?s ?s ?s (Finite (coord 3 0)) (Finite (coord 3 0)) (Finite (coord 3 0))
      = Finite (b64 (exp (b64 (b64 (- rounded_term ?s (- 1) + - rounded_term ?s (- 1)) + - rounded_term ?s (- 1)))))"
    unfolding c using x(2) x(2) x(2) s s s by (rule kernel_value_eval)
  also have "\<dots> = Finite (1 - 1 / 2 ^ 53)"
    by (simp only: rounded_term_example exponent_example b64_exp_three)
  finally have k: "voxel (gaussian_3d 3 3 3 (Seq [?s, ?s, ?s])) 0 0 0 = Some (Finite (1 - 1 / 2 ^ 53))" .
  have p: "profile_value ?s (Finite (coord 3 0)) = Finite 1"
    unfolding c using profile_value_eval[OF x s] by (simp only: rounded_term_example b64_exp_one)
  have m: "f_mul (Finite 1) (Finite 1) = Finite 1" using rnd_int[of 1] by simp
  have "voxel (gaussian_3d_separable_spec 3 3 3 (Seq [?s, ?s, ?s])) 0 0 0
      = Some (f_mul (f_mul (profile_value ?s (Finite (coord 3 0))) (profile_value ?s (Finite (coord 3 0))))
                    (profile_value ?s (Finite (coord 3 0))))"
    using sc by (intro gaussian_3d_separable_spec_voxel) simp_all
  also have "\<dots> = Some (Finite 1)" by (simp only: p m)
  finally have w: "voxel (gaussian_3d_separable_spec 3 3 3 (Seq [?s, ?s, ?s])) 0 0 0 = Some (Finite 1)" .
  have "(1 - 1 / 2 ^ 53 :: real) \<noteq> 1" by simp
  then show ?thesis using k w by blast
qed

text \<open>
  C5, amended. For all positive grid sizes \<open>nx\<close>, \<open>ny\<close>, \<open>nz\<close> up to \<open>2^53\<close> and
  per-axis sigmas that are doubles between \<open>2^(-400)\<close> and \<open>2^400\<close>, \<open>gaussian_3d\<close> and
  the outer product of the three profiles both return an array of \<open>nx * ny * nz\<close> values,
  and at every index the two values are finite and differ by at most \<open>2^(-49)\<close>: the
  kernel is separable up to the rounding of the sum in the exponent, of \<open>exp\<close>, and of the
  two products.
\<close>

theorem gaussian_3d_separable_f64:
  assumes "0 < nx" and "nx \<le> 2 ^ 53" and "0 < ny" and "ny \<le> 2 ^ 53" and "0 < nz" and "nz \<le> 2 ^ 53"
    and "b64 sx = sx" and "1 / 2 ^ 400 \<le> sx" and "sx \<le> 2 ^ 400"
    and "b64 sy = sy" and "1 / 2 ^ 400 \<le> sy" and "sy \<le> 2 ^ 400"
    and "b64 sz = sz" and "1 / 2 ^ 400 \<le> sz" and "sz \<le> 2 ^ 400"
  shows "\<exists>f g. gaussian_3d nx ny nz (Seq [sx, sy, sz]) = Inr f \<and>
           gaussian_3d_separable_spec nx ny nz (Seq [sx, sy, sz]) = Inr g \<and>
           length (elements3 f) = nat nx * nat ny * nat nz \<and>
           length (elements3 g) = nat nx * nat ny * nat nz \<and>
           (\<forall>i < nat nx. \<forall>j < nat ny. \<forall>k < nat nz.
              \<exists>v w. voxel (Inr f) i j k = Some (Finite v) \<and> voxel (Inr g) i j k = Some (Finite w) \<and>
                    \<bar>v - w\<bar> \<le> 1 / 2 ^ 49)"
proof -
  let ?sgm = "Seq [sx, sy, sz]"
  let ?f = "grid3 (kernel_value sx sy sz) (axis nx) (axis ny) (axis nz)"
  let ?g = "grid3 (\<lambda>a b c. f_mul (f_mul (profile_value sx a) (profile_value sy b)) (profile_value sz c))
              (axis nx) (axis ny) (axis nz)"
  have sc: "sigma_components ?sgm = Inr (sx, sy, sz)" by (rule sigma_components_Seq3)
  have f: "gaussian_3d nx ny nz ?sgm = Inr ?f" using assms(1-6) sc by (rule gaussian_3d_closed_form)
  have g: "gaussian_3d_separable_spec nx ny nz ?sgm = Inr ?g"
    using assms(1-6) sc by (rule gaussian_3d_separable_spec_closed_form)
  have cf: "length (elements3 ?f) = nat nx * nat ny * nat nz" by (simp add: grid3_count axis_length)
  have cg: "length (elements3 ?g) = nat nx * nat ny * nat nz" by (simp add: grid3_count axis_length)
  have pt: "\<exists>v w. voxel (Inr ?f) i j k = Some (Finite v) \<and> voxel (Inr ?g) i j k = Some (Finite w) \<and>
                 \<bar>v - w\<bar> \<le> 1 / 2 ^ 49"
    if ijk: "i < nat nx" "j < nat ny" "k < nat nz" for i j k
  proof -
    define a b c where "a = coord nx i" and "b = coord ny j" and "c = coord nz k"
    define q1 q2 q3 where "q1 = rounded_term sx a" and "q2 = rounded_term sy b" and "q3 = rounded_term sz c"
    have bd: "\<bar>a\<bar> \<le> 2 ^ 53" "\<bar>b\<bar> \<le> 2 ^ 53" "\<bar>c\<bar> \<le> 2 ^ 53"
      unfolding a_def b_def c_def using ijk assms(2,4,6) by (simp_all only: coord_bound)
    have ex: "b64 a = a" "b64 b = b" "b64 c = c"
      unfolding a_def b_def c_def using ijk assms(2,4,6) by (simp_all only: coord_b64)
    have DA: "1 / 2 ^ 800 \<le> 2 * b64 (sx * sx)" using assms(7-9) by (rule denominators)
    have DB: "1 / 2 ^ 800 \<le> 2 * b64 (sy * sy)" using assms(10-12) by (rule denominators)
    have DC: "1 / 2 ^ 800 \<le> 2 * b64 (sz * sz)" using assms(13-15) by (rule denominators)
    have q: "0 \<le> q1" "0 \<le> q2" "0 \<le> q3"
      unfolding q1_def q2_def q3_def
      using rounded_term_range(1)[OF bd(1) DA] rounded_term_range(1)[OF bd(2) DB]
        rounded_term_range(1)[OF bd(3) DC] by blast+
    have vf: "voxel (Inr ?f) i j k = Some (kernel_value sx sy sz (Finite a) (Finite b) (Finite c))"
      unfolding f[symmetric] a_def b_def c_def using assms(1-6) sc ijk by (rule gaussian_3d_voxel)
    have vg: "voxel (Inr ?g) i j k =
        Some (f_mul (f_mul (profile_value sx (Finite a)) (profile_value sy (Finite b))) (profile_value sz (Finite c)))"
      unfolding g[symmetric] a_def b_def c_def using assms(1-6) sc ijk by (rule gaussian_3d_separable_spec_voxel)
    have kv: "kernel_value sx sy sz (Finite a) (Finite b) (Finite c) =
        Finite (b64 (exp (b64 (b64 (- q1 + - q2) + - q3))))"
      unfolding q1_def q2_def q3_def using bd assms(7-15) by (rule kernel_value_eval)
    have p1: "profile_value sx (Finite a) = Finite (b64 (exp (- q1)))"
      unfolding q1_def using ex(1) bd(1) assms(7-9) by (rule profile_value_eval)
    have p2: "profile_value sy (Finite b) = Finite (b64 (exp (- q2)))"
      unfolding q2_def using ex(2) bd(2) assms(10-12) by (rule profile_value_eval)
    have p3: "profile_value sz (Finite c) = Finite (b64 (exp (- q3)))"
      unfolding q3_def using ex(3) bd(3) assms(13-15) by (rule profile_value_eval)
    have pv: "f_mul (f_mul (profile_value sx (Finite a)) (profile_value sy (Finite b))) (profile_value sz (Finite c))
        = Finite (b64 (b64 (b64 (exp (- q1)) * b64 (exp (- q2))) * b64 (exp (- q3))))"
      unfolding p1 p2 p3 using q by (rule product_value_eval)
    have "\<bar>b64 (exp (b64 (b64 (- q1 + - q2) + - q3)))
          - b64 (b64 (b64 (exp (- q1)) * b64 (exp (- q2))) * b64 (exp (- q3)))\<bar> \<le> 1 / 2 ^ 49"
      using q by (rule separable_error)
    then show ?thesis unfolding vf vg kv pv by blast
  qed
  show ?thesis using f g cf cg pt by blast
qed

theorem gaussian_3d_separable_f64_witness:
  "(0::int) < 5 \<and> (5::int) \<le> 2 ^ 53 \<and> (0::int) < 4 \<and> (4::int) \<le> 2 ^ 53 \<and> (0::int) < 3 \<and> (3::int) \<le> 2 ^ 53 \<and>
   b64 1 = 1 \<and> 1 / 2 ^ 400 \<le> (1::real) \<and> (1::real) \<le> 2 ^ 400 \<and>
   b64 2 = 2 \<and> 1 / 2 ^ 400 \<le> (2::real) \<and> (2::real) \<le> 2 ^ 400 \<and>
   b64 3 = 3 \<and> 1 / 2 ^ 400 \<le> (3::real) \<and> (3::real) \<le> 2 ^ 400 \<and>
   (\<exists>v w. voxel (gaussian_3d 5 4 3 (Seq [1, 2, 3])) 0 0 0 = Some (Finite v) \<and>
          voxel (gaussian_3d_separable_spec 5 4 3 (Seq [1, 2, 3])) 0 0 0 = Some (Finite w) \<and>
          \<bar>v - w\<bar> \<le> 1 / 2 ^ 49)"
proof -
  have b: "b64 1 = 1" "b64 2 = 2" "b64 3 = 3"
    using b64_of_int[of 1] b64_of_int[of 2] b64_of_int[of 3] by simp_all
  have r: "1 / 2 ^ 400 \<le> (1::real)" "(1::real) \<le> 2 ^ 400" "1 / 2 ^ 400 \<le> (2::real)" "(2::real) \<le> 2 ^ 400"
    "1 / 2 ^ 400 \<le> (3::real)" "(3::real) \<le> 2 ^ 400" by simp_all
  obtain f g where fg: "gaussian_3d 5 4 3 (Seq [1, 2, 3]) = Inr f"
    "gaussian_3d_separable_spec 5 4 3 (Seq [1, 2, 3]) = Inr g"
    "\<forall>i < nat 5. \<forall>j < nat 4. \<forall>k < nat 3.
        \<exists>v w. voxel (Inr f) i j k = Some (Finite v) \<and> voxel (Inr g) i j k = Some (Finite w) \<and>
              \<bar>v - w\<bar> \<le> 1 / 2 ^ 49"
    using gaussian_3d_separable_f64[of 5 4 3 1 2 3] b r by auto
  have "\<exists>v w. voxel (Inr f) 0 0 0 = Some (Finite v) \<and> voxel (Inr g) 0 0 0 = Some (Finite w) \<and>
              \<bar>v - w\<bar> \<le> 1 / 2 ^ 49"
    using fg(3) by simp
  then show ?thesis unfolding fg(1,2) using b r by simp
qed

section \<open>Claims about the error messages\<close>

text \<open>
  C6, as stated: the primary message of \<open>DataGapException\<close> is verbatim the text of the
  specification's table. The message the class builds is a different string.
\<close>

theorem data_gap_message_counterexample:
  "primary_message DataGapException \<noteq>
     ''All available data had gaps for this timestep.\<newline> OR: no data present '' @
     ''in the archive for the selected stations.''"
  by simp

text \<open>
  C6, amended. The primary message of \<open>DataGapException\<close> begins with the class name and
  a colon, then "All available data had gaps for this timestep.", a newline, four spaces
  and "OR: no data present in the archive for the"; its \<open>msg\<close> attribute begins with two
  tabs followed by "All available data for this time period contains gaps".
\<close>

theorem data_gap_messages:
  "prefix (''DataGapException: All available data had gaps for this timestep.\<newline>'' @
           ''    OR: no data present in the archive for the'')
          (primary_message DataGapException) \<and>
   (\<exists>s. msg DataGapException = Some s \<and>
        prefix ([tab, tab] @ ''All available data for this time period contains gaps'') s)"
  by simp

text \<open>
  C9. The primary message of every exception class begins with the name of the class
  followed by a colon and a space, as in "ArchiveEmptyException: No data was available
  for this timestep."; so it never equals the bare text that the specification's table
  gives for the condition.
\<close>

theorem class_name_prefix:
  "prefix (class_name e @ '': '') (primary_message e) \<and>
   (\<forall>s. table_primary_message e = Some s \<longrightarrow> primary_message e \<noteq> s) \<and>
   primary_message ArchiveEmptyException =
     ''ArchiveEmptyException: No data was available for this timestep.''"
  by (cases e) simp_all

theorem class_name_prefix_witness:
  "table_primary_message ArchiveEmptyException = Some ''No data was available for this timestep.'' \<and>
   primary_message ArchiveEmptyException \<noteq> ''No data was available for this timestep.'' \<and>
   prefix (class_name ArchiveEmptyException @ '': '') (primary_message ArchiveEmptyException)"
  using class_name_prefix[of ArchiveEmptyException] by simp

end
